theory Spec2Isabelle
  imports Complex_Main
begin

section \<open>Numeric values\<close>

text \<open>
  numpy computes on IEEE doubles.  A double is modelled as an exact real or one of the
  three special values; rounding and range overflow are not modelled.  The special
  values arise exactly where numpy produces them without raising: a division by zero
  gives an infinity or NaN, the logarithm of zero is minus infinity, and NaN is
  absorbing.  Signed zeros are not distinguished (a zero divisor counts as +0.0).
\<close>

datatype float64 = Fin real | PInf | MInf | NaN

datatype pyError = ValueError | IndexError | TypeError | AttributeError

fun isFin :: "float64 \<Rightarrow> bool" where
  "isFin (Fin r) = True"
| "isFin PInf = False"
| "isFin MInf = False"
| "isFin NaN = False"

fun fneg :: "float64 \<Rightarrow> float64" where
  "fneg (Fin a) = Fin (- a)"
| "fneg PInf = MInf"
| "fneg MInf = PInf"
| "fneg NaN = NaN"

fun fadd :: "float64 \<Rightarrow> float64 \<Rightarrow> float64" where
  "fadd (Fin a) (Fin b) = Fin (a + b)"
| "fadd (Fin a) PInf = PInf"
| "fadd (Fin a) MInf = MInf"
| "fadd PInf (Fin b) = PInf"
| "fadd PInf PInf = PInf"
| "fadd PInf MInf = NaN"
| "fadd MInf (Fin b) = MInf"
| "fadd MInf MInf = MInf"
| "fadd MInf PInf = NaN"
| "fadd NaN y = NaN"
| "fadd x NaN = NaN"

definition fsub :: "float64 \<Rightarrow> float64 \<Rightarrow> float64" where
  "fsub x y = fadd x (fneg y)"

fun fmul :: "float64 \<Rightarrow> float64 \<Rightarrow> float64" where
  "fmul (Fin a) (Fin b) = Fin (a * b)"
| "fmul (Fin a) PInf = (if a = 0 then NaN else if 0 < a then PInf else MInf)"
| "fmul (Fin a) MInf = (if a = 0 then NaN else if 0 < a then MInf else PInf)"
| "fmul PInf (Fin b) = (if b = 0 then NaN else if 0 < b then PInf else MInf)"
| "fmul MInf (Fin b) = (if b = 0 then NaN else if 0 < b then MInf else PInf)"
| "fmul PInf PInf = PInf"
| "fmul PInf MInf = MInf"
| "fmul MInf PInf = MInf"
| "fmul MInf MInf = PInf"
| "fmul NaN y = NaN"
| "fmul x NaN = NaN"

fun fdiv :: "float64 \<Rightarrow> float64 \<Rightarrow> float64" where
  "fdiv (Fin a) (Fin b) =
     (if b = 0 then (if a = 0 then NaN else if 0 < a then PInf else MInf)
      else Fin (a / b))"
| "fdiv (Fin a) PInf = Fin 0"
| "fdiv (Fin a) MInf = Fin 0"
| "fdiv PInf (Fin b) = (if 0 \<le> b then PInf else MInf)"
| "fdiv MInf (Fin b) = (if 0 \<le> b then MInf else PInf)"
| "fdiv PInf PInf = NaN"
| "fdiv PInf MInf = NaN"
| "fdiv MInf PInf = NaN"
| "fdiv MInf MInf = NaN"
| "fdiv NaN y = NaN"
| "fdiv x NaN = NaN"

text \<open>\<^verbatim>\<open>np.exp\<close> and \<^verbatim>\<open>np.log\<close>.\<close>

fun fexp :: "float64 \<Rightarrow> float64" where
  "fexp (Fin a) = Fin (exp a)"
| "fexp PInf = PInf"
| "fexp MInf = Fin 0"
| "fexp NaN = NaN"

fun flog :: "float64 \<Rightarrow> float64" where
  "flog (Fin a) = (if 0 < a then Fin (ln a) else if a = 0 then MInf else NaN)"
| "flog PInf = PInf"
| "flog MInf = NaN"
| "flog NaN = NaN"

text \<open>\<^verbatim>\<open>np.sum\<close>, \<^verbatim>\<open>np.prod\<close>, \<^verbatim>\<open>np.mean\<close> over a one-dimensional array.\<close>

definition fsum :: "float64 list \<Rightarrow> float64" where
  "fsum xs = foldr fadd xs (Fin 0)"

definition fprod :: "float64 list \<Rightarrow> float64" where
  "fprod xs = foldr fmul xs (Fin 1)"

definition fmean :: "float64 list \<Rightarrow> float64" where
  "fmean xs = fdiv (fsum xs) (Fin (real (length xs)))"

text \<open>The maximum of two doubles as \<^verbatim>\<open>np.amax\<close> takes it: NaN propagates.\<close>

fun fmax2 :: "float64 \<Rightarrow> float64 \<Rightarrow> float64" where
  "fmax2 (Fin a) (Fin b) = Fin (max a b)"
| "fmax2 (Fin a) PInf = PInf"
| "fmax2 (Fin a) MInf = Fin a"
| "fmax2 PInf (Fin b) = PInf"
| "fmax2 MInf (Fin b) = Fin b"
| "fmax2 PInf PInf = PInf"
| "fmax2 PInf MInf = PInf"
| "fmax2 MInf PInf = PInf"
| "fmax2 MInf MInf = MInf"
| "fmax2 NaN y = NaN"
| "fmax2 x NaN = NaN"

text \<open>\<^verbatim>\<open>np.amax\<close> raises ValueError on an empty array.\<close>

fun famax :: "float64 list \<Rightarrow> pyError + float64" where
  "famax [] = Inl ValueError"
| "famax (x # xs) = Inr (foldl fmax2 x xs)"

text \<open>
  \<^verbatim>\<open>scipy.misc.logsumexp(a)\<close> on a one-dimensional array: the maximum is taken out
  before exponentiating and added back after the logarithm; a maximum that is not
  finite is replaced by 0.
\<close>

definition logsumexp :: "float64 list \<Rightarrow> pyError + float64" where
  "logsumexp a =
     (case famax a of
        Inl e \<Rightarrow> Inl e
      | Inr m \<Rightarrow>
          (let a_max = (if isFin m then m else Fin 0)
           in Inr (fadd (flog (fsum (map (\<lambda>x. fexp (fsub x a_max)) a))) a_max)))"

section \<open>Grid builder\<close>

text \<open>A raster entry is the tuple \<^verbatim>\<open>(name, lower, upper, steps)\<close>.\<close>

type_synonym rasterEntry = "string \<times> real \<times> real \<times> int"

text \<open>
  \<^verbatim>\<open>np.linspace(start, stop, num)\<close> with the end point included: a negative count
  raises ValueError, one sample is the start value, and the last of several samples is
  set to the stop value.
\<close>

definition linspace :: "real \<Rightarrow> real \<Rightarrow> int \<Rightarrow> pyError + real list" where
  "linspace start stop num =
     (if num < 0 then Inl ValueError
      else Inr (map (\<lambda>i. if 1 < num
                          then (if Suc i = nat num then stop
                                else real i * ((stop - start) / real_of_int (num - 1)) + start)
                          else start)
                    [0..<nat num]))"

text \<open>
  Row-major (C order) decoding of a flat index into a multi-index for a given shape,
  the inverse of \<^verbatim>\<open>ravel()\<close>: the last axis varies fastest.
\<close>

fun unravel_index :: "nat \<Rightarrow> nat list \<Rightarrow> nat list" where
  "unravel_index f [] = []"
| "unravel_index f (n # ns) = (f div prod_list ns) # unravel_index (f mod prod_list ns) ns"

text \<open>
  \<^verbatim>\<open>[t.ravel() for t in np.meshgrid(*axes, indexing='ij')]\<close>: the k-th output has the
  shape \<open>map length axes\<close> and holds, at the multi-index \<open>(i\<^sub>0, \<dots>)\<close>, the value
  \<open>axes ! k ! i\<^sub>k\<close>; it is flattened in C order.
\<close>

definition meshgrid_ij_ravel :: "'a list list \<Rightarrow> 'a list list" where
  "meshgrid_ij_ravel axes =
     map (\<lambda>k. map (\<lambda>f. (axes ! k) ! (unravel_index f (map length axes) ! k))
                  [0..<prod_list (map length axes)])
         [0..<length axes]"

text \<open>Collects the results of a list of fallible computations, stopping at the first error.\<close>

fun sequenceE :: "('e + 'a) list \<Rightarrow> 'e + 'a list" where
  "sequenceE [] = Inr []"
| "sequenceE (x # xs) =
     (case x of
        Inl e \<Rightarrow> Inl e
      | Inr v \<Rightarrow> (case sequenceE xs of Inl e \<Rightarrow> Inl e | Inr vs \<Rightarrow> Inr (v # vs)))"

text \<open>Lines 84-86 of \<^verbatim>\<open>fit\<close>: the array of raster values, one row per grid point.\<close>

definition rasterAxes :: "rasterEntry list \<Rightarrow> pyError + real list list" where
  "rasterAxes rs = sequenceE (map (\<lambda>(name, lower, upper, steps). linspace lower upper steps) rs)"

definition buildRasterValues :: "rasterEntry list \<Rightarrow> pyError + real list list" where
  "buildRasterValues rs =
     (case rasterAxes rs of
        Inl e \<Rightarrow> Inl e
      | Inr axes \<Rightarrow> Inr (transpose (meshgrid_ij_ravel axes)))"

text \<open>Line 87 of \<^verbatim>\<open>fit\<close>: the spacing constant of every raster dimension.\<close>

definition spacingConstant :: "rasterEntry \<Rightarrow> float64" where
  "spacingConstant e =
     (case e of (name, lower, upper, steps) \<Rightarrow>
        fdiv (Fin \<bar>upper - lower\<bar>) (Fin (real_of_int steps - 1)))"

definition buildRasterConstant :: "rasterEntry list \<Rightarrow> float64 list" where
  "buildRasterConstant rs = map spacingConstant rs"

section \<open>Prior evaluator\<close>

text \<open>
  One entry of the \<^verbatim>\<open>prior\<close> argument: whether the distribution of the random variable
  has free symbols, and its density as the function that \<^verbatim>\<open>lambdify\<close> returns.
\<close>

record priorSpec =
  freeSymbols :: bool
  pdf :: "real \<Rightarrow> real"

text \<open>\<^verbatim>\<open>rasterValues[:, i]\<close>; an index beyond a row raises IndexError.\<close>

definition column :: "nat \<Rightarrow> 'a list list \<Rightarrow> pyError + 'a list" where
  "column i rows =
     (if list_all (\<lambda>r. i < length r) rows then Inr (map (\<lambda>r. r ! i) rows)
      else Inl IndexError)"

text \<open>
  Lines 116-129: the loop over the supplied priors.  The flag of the result tells that
  the loop returned early on a prior with free parameters; the vector is the value of
  \<^verbatim>\<open>hyperParameterPrior\<close> at that moment.
\<close>

fun priorLoop ::
  "(nat \<times> priorSpec) list \<Rightarrow> real list list \<Rightarrow> float64 list \<Rightarrow> pyError + (bool \<times> float64 list)"
where
  "priorLoop [] rv hp = Inr (False, hp)"
| "priorLoop ((i, p) # rest) rv hp =
     (if freeSymbols p then Inr (True, hp)
      else (case column i rv of
              Inl e \<Rightarrow> Inl e
            | Inr col \<Rightarrow> priorLoop rest rv (map2 fmul hp (map (\<lambda>x. Fin (pdf p x)) col))))"

section \<open>The study object and its collaborators\<close>

text \<open>What one run of the single-point filtering routine leaves on the study.\<close>

record pointResult =
  pLogEvidence :: float64
  pLocalEvidence :: "float64 list"
  pPosteriorSequence :: "float64 list list"
  pPosteriorMeanValues :: "float64 list list"

text \<open>One recorded invocation of \<^verbatim>\<open>Study.fit\<close>.\<close>

record studyFitCall =
  callNames :: "string list"
  callValues :: "real list option"
  callForwardOnly :: bool
  callEvidenceOnly :: bool
  callSilent :: bool

text \<open>
  The attributes of a \<^verbatim>\<open>RasterStudy\<close> instance.  Arrays over the parameter grid are kept
  flattened: a posterior sequence is a list of time steps, each a list of
  \<open>prod_list gridSize\<close> values.  \<open>hyperParameterValues\<close> is what the last call of
  \<^verbatim>\<open>setSelectedHyperParameters\<close> has bound; \<open>fitCalls\<close> is the trace of the invocations
  of \<^verbatim>\<open>Study.fit\<close> on this instance.
\<close>

record rasterStudy =
  raster :: "rasterEntry list"
  rasterValues :: "real list list"
  rasterConstant :: "float64 list"
  hyperParameterPrior :: "float64 list option"
  hyperParameterDistribution :: "float64 list option"
  averagePosteriorSequence :: "float64 list list option"
  logEvidenceList :: "float64 list"
  localEvidenceList :: "float64 list list"
  rawData :: "real list"
  formattedData :: "real list list"
  selectedHyperParameters :: "string list"
  hyperParameterValues :: "real list option"
  logEvidence :: float64
  localEvidence :: "float64 list"
  posteriorSequence :: "float64 list list"
  posteriorMeanValues :: "float64 list list"
  fitCalls :: "studyFitCall list"

text \<open>
  The code that \<^verbatim>\<open>rasterStudy.py\<close> imports and calls, taken as parameters:
  \<^verbatim>\<open>movingWindow\<close> (with the segment length of the observation model), the parameter
  grid of the observation model (\<^verbatim>\<open>gridSize\<close>, \<^verbatim>\<open>grid\<close>), \<^verbatim>\<open>Study.checkConsistency\<close>,
  the computation of \<^verbatim>\<open>Study.fit\<close> from the selected hyper-parameter names, the bound
  values, the formatted data and the two mode flags, and whether
  \<^verbatim>\<open>pathos.multiprocessing\<close> can be imported.
\<close>

record collaborators =
  movingWindow :: "real list \<Rightarrow> real list list"
  gridSize :: "nat list"
  grid :: "real list list"
  checkConsistency :: "rasterStudy \<Rightarrow> bool"
  studyFit :: "string list \<Rightarrow> real list option \<Rightarrow> real list list \<Rightarrow> bool \<Rightarrow> bool \<Rightarrow> pointResult"
  pathosAvailable :: bool

definition setSelectedHyperParameters :: "real list \<Rightarrow> rasterStudy \<Rightarrow> rasterStudy" where
  "setSelectedHyperParameters hyperParamValues s = s\<lparr>hyperParameterValues := Some hyperParamValues\<rparr>"

text \<open>
  Modelled from the spec: \<^verbatim>\<open>Study.fit\<close> (study.py is not among the sources).  The
  routine returns a log-evidence, a local-evidence sequence and, unless evidence-only,
  a posterior sequence; here it stores them on the study and the call is recorded.
\<close>

definition callStudyFit :: "collaborators \<Rightarrow> bool \<Rightarrow> bool \<Rightarrow> bool \<Rightarrow> rasterStudy \<Rightarrow> rasterStudy" where
  "callStudyFit env forwardOnly evidenceOnly silent s =
     (let r = studyFit env (selectedHyperParameters s) (hyperParameterValues s) (formattedData s)
                forwardOnly evidenceOnly
      in s\<lparr>logEvidence := pLogEvidence r,
           localEvidence := pLocalEvidence r,
           posteriorSequence := (if evidenceOnly then posteriorSequence s else pPosteriorSequence r),
           posteriorMeanValues :=
             (if evidenceOnly then posteriorMeanValues s else pPosteriorMeanValues r),
           fitCalls := fitCalls s @
             [\<lparr>callNames = selectedHyperParameters s, callValues = hyperParameterValues s,
               callForwardOnly = forwardOnly, callEvidenceOnly = evidenceOnly,
               callSilent = silent\<rparr>]\<rparr>)"

section \<open>The sweep over the grid\<close>

text \<open>
  \<^verbatim>\<open>acc += posteriorSequence * weight * priorValue\<close> on arrays of the same shape; numpy
  raises ValueError when the shapes do not fit.
\<close>

definition sameShape :: "'a list list \<Rightarrow> 'b list list \<Rightarrow> bool" where
  "sameShape a b = (map length a = map length b)"

definition addWeighted ::
  "float64 list list \<Rightarrow> float64 list list \<Rightarrow> float64 \<Rightarrow> float64 \<Rightarrow> pyError + float64 list list"
where
  "addWeighted acc post weight priorValue =
     (if sameShape acc post
      then Inr (map2 (map2 (\<lambda>a x. fadd a (fmul (fmul x weight) priorValue))) acc post)
      else Inl ValueError)"

text \<open>
  The body of the loop of lines 178-189, which is also the body of the loop of
  \<^verbatim>\<open>parallelFit\<close> (lines 282-293), for the grid point \<open>hyperParamValues\<close> at position \<open>i\<close>.
\<close>

definition sweepStep ::
  "collaborators \<Rightarrow> bool \<Rightarrow> bool \<Rightarrow> nat \<Rightarrow> real list \<Rightarrow> rasterStudy \<Rightarrow> pyError + rasterStudy"
where
  "sweepStep env forwardOnly evidenceOnly i hyperParamValues s =
     (let s1 = setSelectedHyperParameters hyperParamValues s;
          s2 = callStudyFit env forwardOnly evidenceOnly True s1;
          s3 = s2\<lparr>logEvidenceList := logEvidenceList s2 @ [logEvidence s2],
                  localEvidenceList := localEvidenceList s2 @ [localEvidence s2]\<rparr>
      in if evidenceOnly then Inr s3
         else (case (averagePosteriorSequence s3, hyperParameterPrior s3) of
                 (Some acc, Some hp) \<Rightarrow>
                   (if i < length hp
                    then (case addWeighted acc (posteriorSequence s3)
                                 (fexp (fsub (logEvidence s3) (logEvidenceList s3 ! 0))) (hp ! i) of
                            Inl e \<Rightarrow> Inl e
                          | Inr acc' \<Rightarrow> Inr (s3\<lparr>averagePosteriorSequence := Some acc'\<rparr>))
                    else Inl IndexError)
               | _ \<Rightarrow> Inl TypeError))"

fun sweepLoop ::
  "collaborators \<Rightarrow> bool \<Rightarrow> bool \<Rightarrow> (nat \<times> real list) list \<Rightarrow> rasterStudy \<Rightarrow> pyError + rasterStudy"
where
  "sweepLoop env forwardOnly evidenceOnly [] s = Inr s"
| "sweepLoop env forwardOnly evidenceOnly ((i, hyperParamValues) # rest) s =
     (case sweepStep env forwardOnly evidenceOnly i hyperParamValues s of
        Inl e \<Rightarrow> Inl e
      | Inr s' \<Rightarrow> sweepLoop env forwardOnly evidenceOnly rest s')"

definition sweep :: "collaborators \<Rightarrow> bool \<Rightarrow> bool \<Rightarrow> rasterStudy \<Rightarrow> pyError + rasterStudy" where
  "sweep env forwardOnly evidenceOnly s =
     sweepLoop env forwardOnly evidenceOnly (enumerate 0 (rasterValues s)) s"

section \<open>Parallel split and merge\<close>

text \<open>
  \<^verbatim>\<open>np.array_split(ary, n)\<close> along the first axis, for \<open>0 < n\<close>: the first
  \<open>length ary mod n\<close> sections have one element more than the others.
\<close>

fun cumsum :: "nat \<Rightarrow> nat list \<Rightarrow> nat list" where
  "cumsum acc [] = []"
| "cumsum acc (x # xs) = (acc + x) # cumsum (acc + x) xs"

definition array_split :: "'a list \<Rightarrow> nat \<Rightarrow> 'a list list" where
  "array_split ary n =
     (let neach = length ary div n;
          extras = length ary mod n;
          section_sizes = [0] @ replicate extras (neach + 1) @ replicate (n - extras) neach;
          div_points = cumsum 0 section_sizes
      in map (\<lambda>i. take (div_points ! (i + 1) - div_points ! i) (drop (div_points ! i) ary))
             [0..<n])"

text \<open>\<^verbatim>\<open>parallelFit\<close> (lines 278-299): a copy of the study sweeps one section of the grid.\<close>

definition parallelFit ::
  "collaborators \<Rightarrow> nat \<Rightarrow> nat \<Rightarrow> bool \<Rightarrow> bool \<Rightarrow> rasterStudy \<Rightarrow> pyError + rasterStudy"
where
  "parallelFit env idx nJobs forwardOnly evidenceOnly self =
     (case hyperParameterPrior self of
        None \<Rightarrow> Inl TypeError
      | Some hp \<Rightarrow>
          sweep env forwardOnly evidenceOnly
            (self\<lparr>rasterValues := array_split (rasterValues self) nJobs ! idx,
                  hyperParameterPrior := Some (array_split hp nJobs ! idx)\<rparr>))"

text \<open>Lines 171-175: one sub-study is merged into the study.\<close>

definition mergeSubStudy :: "bool \<Rightarrow> rasterStudy \<Rightarrow> rasterStudy \<Rightarrow> pyError + rasterStudy" where
  "mergeSubStudy evidenceOnly self S =
     (let s1 = self\<lparr>logEvidenceList := logEvidenceList self @ logEvidenceList S,
                    localEvidenceList := localEvidenceList self @ localEvidenceList S\<rparr>
      in if evidenceOnly then Inr s1
         else (case (averagePosteriorSequence s1, averagePosteriorSequence S) of
                 (Some acc, Some part) \<Rightarrow>
                   (if sameShape acc part
                    then Inr (s1\<lparr>averagePosteriorSequence := Some (map2 (map2 fadd) acc part)\<rparr>)
                    else Inl ValueError)
               | _ \<Rightarrow> Inl TypeError))"

fun mergeSubStudies :: "bool \<Rightarrow> rasterStudy list \<Rightarrow> rasterStudy \<Rightarrow> pyError + rasterStudy" where
  "mergeSubStudies evidenceOnly [] self = Inr self"
| "mergeSubStudies evidenceOnly (S # rest) self =
     (case mergeSubStudy evidenceOnly self S of
        Inl e \<Rightarrow> Inl e
      | Inr self' \<Rightarrow> mergeSubStudies evidenceOnly rest self')"

text \<open>
  Lines 149-193.  \<^verbatim>\<open>pool.map\<close> returns the sub-studies in the order of their indices;
  an exception in a worker is raised in the caller.
\<close>

definition runSweep ::
  "collaborators \<Rightarrow> bool \<Rightarrow> bool \<Rightarrow> int \<Rightarrow> rasterStudy \<Rightarrow> pyError + rasterStudy"
where
  "runSweep env forwardOnly evidenceOnly nJobs s =
     (let nJobs' = (if 1 < nJobs \<and> \<not> pathosAvailable env then 1 else nJobs)
      in if 1 < nJobs'
         then (case sequenceE (map (\<lambda>idx. parallelFit env idx (nat nJobs') forwardOnly evidenceOnly s)
                                   [0..<nat nJobs']) of
                 Inl e \<Rightarrow> Inl e
               | Inr subStudies \<Rightarrow> mergeSubStudies evidenceOnly subStudies s)
         else sweep env forwardOnly evidenceOnly s)"

section \<open>Evidence aggregation\<close>

text \<open>Lines 200-203: every time step of the accumulator is divided by its sum.\<close>

definition normalizeSequence :: "float64 list list \<Rightarrow> float64 list list" where
  "normalizeSequence acc = map (\<lambda>posterior. map (\<lambda>x. fdiv x (fsum posterior)) posterior) acc"

text \<open>
  \<^verbatim>\<open>np.array(logEvidenceList) + np.log(hyperParameterPrior)\<close> (lines 212 and 217); the
  two vectors have one entry per grid point, other lengths raise ValueError.
\<close>

definition logJoint :: "float64 list \<Rightarrow> float64 list \<Rightarrow> pyError + float64 list" where
  "logJoint les hp =
     (if length les = length hp then Inr (map2 fadd les (map flog hp)) else Inl ValueError)"

text \<open>Lines 217-221: the hyper-parameter distribution from the vector of line 217.\<close>

definition hyperDistribution :: "float64 list \<Rightarrow> float64 list \<Rightarrow> float64 list" where
  "hyperDistribution logHyperParameterDistribution rc =
     (let scaledLogHyperParameterDistribution =
            map (\<lambda>x. fsub x (fmean logHyperParameterDistribution)) logHyperParameterDistribution;
          d1 = map fexp scaledLogHyperParameterDistribution;
          d2 = map (\<lambda>x. fdiv x (fsum d1)) d1
      in map (\<lambda>x. fdiv x (fprod rc)) d2)"

text \<open>
  Line 227: the local evidence of the average model, per time step the sum over the
  grid points of the local evidence times the hyper-parameter distribution.  The empty
  list is not reached: \<^verbatim>\<open>logsumexp\<close> has raised on it before.
\<close>

definition averageLocalEvidence :: "float64 list list \<Rightarrow> float64 list \<Rightarrow> pyError + float64 list" where
  "averageLocalEvidence lel hpd =
     (case lel of
        [] \<Rightarrow> Inl ValueError
      | l0 # _ \<Rightarrow>
          (if list_all (\<lambda>l. length l = length l0) lel \<and> length lel = length hpd
           then Inr (map (\<lambda>t. fsum (map2 (\<lambda>l d. fmul (l ! t) d) lel hpd)) [0..<length l0])
           else Inl ValueError))"

text \<open>Lines 234-236: the posterior mean values, one row per parameter of the grid.\<close>

definition meanValues :: "real list list \<Rightarrow> float64 list list \<Rightarrow> pyError + float64 list list" where
  "meanValues g post =
     (if list_all (\<lambda>gi. list_all (\<lambda>p. length p = length gi) post) g
      then Inr (map (\<lambda>gi. map (\<lambda>p. fsum (map2 fmul p (map Fin gi))) post) g)
      else Inl ValueError)"

text \<open>Lines 195-246 of \<^verbatim>\<open>fit\<close>.\<close>

definition aggregate :: "collaborators \<Rightarrow> bool \<Rightarrow> rasterStudy \<Rightarrow> pyError + rasterStudy" where
  "aggregate env evidenceOnly s =
     (let s1 = s\<lparr>selectedHyperParameters := []\<rparr>
      in case (if evidenceOnly then Inr s1
               else (case averagePosteriorSequence s1 of
                       None \<Rightarrow> Inl TypeError
                     | Some acc \<Rightarrow>
                         Inr (s1\<lparr>averagePosteriorSequence := Some (normalizeSequence acc),
                                 posteriorSequence := normalizeSequence acc\<rparr>))) of
           Inl e \<Rightarrow> Inl e
         | Inr s2 \<Rightarrow>
            (case hyperParameterPrior s2 of
               None \<Rightarrow> Inl TypeError
             | Some hp \<Rightarrow>
                (case logJoint (logEvidenceList s2) hp of
                   Inl e \<Rightarrow> Inl e
                 | Inr lj \<Rightarrow>
                    (case logsumexp lj of
                       Inl e \<Rightarrow> Inl e
                     | Inr le \<Rightarrow>
                        (let hpd = hyperDistribution lj (rasterConstant s2);
                             s3 = s2\<lparr>logEvidence := le, hyperParameterDistribution := Some hpd\<rparr>
                         in case averageLocalEvidence (localEvidenceList s3) hpd of
                              Inl e \<Rightarrow> Inl e
                            | Inr loc \<Rightarrow>
                               (let s4 = s3\<lparr>localEvidence := loc\<rparr>
                                in case (if evidenceOnly then Inr s4
                                         else (case meanValues (grid env) (posteriorSequence s4) of
                                                 Inl e \<Rightarrow> Inl e
                                               | Inr mv \<Rightarrow> Inr (s4\<lparr>posteriorMeanValues := mv\<rparr>))) of
                                     Inl e \<Rightarrow> Inl e
                                   | Inr s5 \<Rightarrow>
                                       Inr (s5\<lparr>hyperParameterPrior := None,
                                               logEvidenceList := [],
                                               localEvidenceList := []\<rparr>)))))))"

section \<open>The fit method\<close>

text \<open>
  How a call of \<^verbatim>\<open>fit\<close> that raises no exception ends: by delegating to the standard
  fit method, by one of the messages that start with an exclamation mark, or with
  \<^verbatim>\<open>+ Finished fit.\<close>
\<close>

datatype fitOutcome =
    StandardFit
  | NoDummyRaster
  | NoRasterValues
  | NoRasterConstant
  | PriorCountMismatch
  | PriorFreeParameters
  | Inconsistent
  | Finished

text \<open>
  Lines 74-98.  The option of the result holds the outcome when \<^verbatim>\<open>fit\<close> returns in
  this part.
\<close>

definition setupRaster ::
  "collaborators \<Rightarrow> rasterEntry list \<Rightarrow> bool \<Rightarrow> bool \<Rightarrow> bool \<Rightarrow> bool \<Rightarrow> rasterStudy
     \<Rightarrow> pyError + (fitOutcome option \<times> rasterStudy)"
where
  "setupRaster env rasterArg forwardOnly evidenceOnly customRaster silent s =
     (if \<not> customRaster
      then (let s1 = s\<lparr>raster := rasterArg\<rparr>
            in if raster s1 = []
               then Inr (Some StandardFit, callStudyFit env forwardOnly evidenceOnly silent s1)
               else (case buildRasterValues (raster s1) of
                       Inl e \<Rightarrow> Inl e
                     | Inr rv \<Rightarrow>
                         Inr (None, s1\<lparr>rasterValues := rv,
                                       rasterConstant := buildRasterConstant (raster s1)\<rparr>)))
      else if raster s = [] then Inr (Some NoDummyRaster, s)
      else if rasterValues s = [] then Inr (Some NoRasterValues, s)
      else if rasterConstant s = [] then Inr (Some NoRasterConstant, s)
      else Inr (None, s))"

text \<open>Lines 103-132.\<close>

definition setupPrior ::
  "priorSpec list \<Rightarrow> rasterStudy \<Rightarrow> pyError + (fitOutcome option \<times> rasterStudy)"
where
  "setupPrior prior s =
     (let n = length (rasterValues s)
      in if prior = []
         then Inr (None, s\<lparr>hyperParameterPrior :=
                              Some (map (\<lambda>x. fdiv x (Fin (real n))) (replicate n (Fin 1)))\<rparr>)
         else (case rasterValues s of
                 [] \<Rightarrow> Inl IndexError
               | r0 # _ \<Rightarrow>
                   (if length prior \<noteq> length r0 then Inr (Some PriorCountMismatch, s)
                    else (case priorLoop (enumerate 0 prior) (rasterValues s) (replicate n (Fin 1)) of
                            Inl e \<Rightarrow> Inl e
                          | Inr (True, hp) \<Rightarrow>
                              Inr (Some PriorFreeParameters, s\<lparr>hyperParameterPrior := Some hp\<rparr>)
                          | Inr (False, hp) \<Rightarrow>
                              Inr (None, s\<lparr>hyperParameterPrior :=
                                             Some (map (\<lambda>x. fdiv x (fsum hp)) hp)\<rparr>)))))"

text \<open>Lines 134-141.\<close>

definition prepareSweep :: "collaborators \<Rightarrow> bool \<Rightarrow> rasterStudy \<Rightarrow> rasterStudy" where
  "prepareSweep env evidenceOnly s =
     s\<lparr>averagePosteriorSequence :=
         (if evidenceOnly then averagePosteriorSequence s
          else Some (replicate (length (formattedData s))
                       (replicate (prod_list (gridSize env)) (Fin 0)))),
       logEvidenceList := [],
       localEvidenceList := [],
       selectedHyperParameters := map fst (raster s)\<rparr>"

definition fit ::
  "collaborators \<Rightarrow> rasterEntry list \<Rightarrow> priorSpec list \<Rightarrow> bool \<Rightarrow> bool \<Rightarrow> bool \<Rightarrow> bool \<Rightarrow> int
     \<Rightarrow> rasterStudy \<Rightarrow> pyError + (fitOutcome \<times> rasterStudy)"
where
  "fit env rasterArg prior forwardOnly evidenceOnly customRaster silent nJobs s =
     (case setupRaster env rasterArg forwardOnly evidenceOnly customRaster silent s of
        Inl e \<Rightarrow> Inl e
      | Inr (Some outcome, s1) \<Rightarrow> Inr (outcome, s1)
      | Inr (None, s1) \<Rightarrow>
         (case setupPrior prior (s1\<lparr>formattedData := movingWindow env (rawData s1)\<rparr>) of
            Inl e \<Rightarrow> Inl e
          | Inr (Some outcome, s2) \<Rightarrow> Inr (outcome, s2)
          | Inr (None, s2) \<Rightarrow>
             (let s3 = prepareSweep env evidenceOnly s2
              in if \<not> checkConsistency env s3 then Inr (Inconsistent, s3)
                 else (case runSweep env forwardOnly evidenceOnly nJobs s3 of
                         Inl e \<Rightarrow> Inl e
                       | Inr s4 \<Rightarrow>
                          (case aggregate env evidenceOnly s4 of
                             Inl e \<Rightarrow> Inl e
                           | Inr s5 \<Rightarrow> Inr (Finished, s5))))))"

section \<open>Marginalization\<close>

text \<open>
  The \<^verbatim>\<open>param\<close> argument of \<^verbatim>\<open>plotHyperParameterDistribution\<close>: an integer index, a
  name, or a value of another type.
\<close>

datatype paramRef = ByIndex int | ByName string | OtherParam

text \<open>Lines 328-331: the index of the last hyper-parameter with the given name, or -1.\<close>

fun findParamIndex :: "string \<Rightarrow> (nat \<times> string) list \<Rightarrow> int \<Rightarrow> int" where
  "findParamIndex param [] paramIndex = paramIndex"
| "findParamIndex param ((i, name) # rest) paramIndex =
     findParamIndex param rest (if name = param then int i else paramIndex)"

text \<open>
  \<^verbatim>\<open>np.squeeze(np.apply_over_axes(np.sum, distribution, axesToMarginalize))\<close> for the
  array of the given shape in C order, where the axes to marginalize are all but \<open>k\<close>:
  entry \<open>j\<close> is the sum of the entries whose \<open>k\<close>-th index is \<open>j\<close>.
\<close>

definition sumOverOtherAxes :: "nat list \<Rightarrow> nat \<Rightarrow> float64 list \<Rightarrow> float64 list" where
  "sumOverOtherAxes shape k distribution =
     map (\<lambda>j. fsum (map (\<lambda>f. distribution ! f)
                     (filter (\<lambda>f. unravel_index f shape ! k = j) [0..<length distribution])))
         [0..<shape ! k]"

text \<open>
  Lines 323-365 without the plotting calls.  The result is \<open>None\<close> where the method
  prints a message and returns nothing.  \<^verbatim>\<open>list.remove\<close> raises ValueError for an index
  that is not an axis; \<^verbatim>\<open>reshape\<close> raises ValueError when the number of entries is not
  the product of the step counts (a negative step count is reported as ValueError too);
  \<^verbatim>\<open>rasterConstant[axis]\<close> raises IndexError beyond the list, for the marginalized axes
  and for the bar width of the axis that is kept.  For an axis of one step \<^verbatim>\<open>np.squeeze\<close>
  returns a zero-dimensional array, which is the list of one entry here.
\<close>

definition plotHyperParameterDistribution ::
  "paramRef \<Rightarrow> rasterStudy \<Rightarrow> pyError + (real list \<times> float64 list) option"
where
  "plotHyperParameterDistribution param s =
     (let hyperParameterNames = map fst (raster s);
          resolved = (case param of
                        ByIndex i \<Rightarrow> Some i
                      | ByName n \<Rightarrow>
                          (let paramIndex = findParamIndex n (enumerate 0 hyperParameterNames) (- 1)
                           in if paramIndex = - 1 then None else Some paramIndex)
                      | OtherParam \<Rightarrow> None)
      in case resolved of
           None \<Rightarrow> Inr None
         | Some paramIndex \<Rightarrow>
            (if paramIndex < 0 \<or> int (length hyperParameterNames) \<le> paramIndex then Inl ValueError
             else (let k = nat paramIndex;
                       axesToMarginalize = filter (\<lambda>a. a \<noteq> k) [0..<length hyperParameterNames];
                       rasterSteps = map (\<lambda>(name, lower, upper, steps). steps) (raster s)
                   in case hyperParameterDistribution s of
                        None \<Rightarrow> Inl AttributeError
                      | Some hpd \<Rightarrow>
                         (if list_all (\<lambda>n. 0 \<le> n) rasterSteps
                             \<and> prod_list (map nat rasterSteps) = length hpd
                          then (if list_all (\<lambda>a. a < length (rasterConstant s))
                                      (axesToMarginalize @ [k])
                                then (let marginalDistribution =
                                            sumOverOtherAxes (map nat rasterSteps) k hpd;
                                          integrationFactor =
                                            fprod (map (\<lambda>axis. rasterConstant s ! axis) axesToMarginalize)
                                      in case (case raster s ! k of (name, lower, upper, steps) \<Rightarrow>
                                                 linspace lower upper steps) of
                                           Inl e \<Rightarrow> Inl e
                                         | Inr x \<Rightarrow>
                                             Inr (Some (x, map (\<lambda>m. fmul m integrationFactor)
                                                              marginalDistribution)))
                                else Inl IndexError)
                          else Inl ValueError))))"

section \<open>A small study for concrete runs\<close>

text \<open>The attributes after \<^verbatim>\<open>__init__\<close> (lines 23-33 and the defaults of the parent class).\<close>

definition newRasterStudy :: rasterStudy where
  "newRasterStudy =
     \<lparr>raster = [], rasterValues = [], rasterConstant = [], hyperParameterPrior = None,
      hyperParameterDistribution = None, averagePosteriorSequence = None,
      logEvidenceList = [], localEvidenceList = [], rawData = [], formattedData = [],
      selectedHyperParameters = [], hyperParameterValues = None, logEvidence = Fin 0,
      localEvidence = [], posteriorSequence = [], posteriorMeanValues = [], fitCalls = []\<rparr>"

text \<open>
  A filtering routine on a parameter grid of two cells: with the first bound
  hyper-parameter value \<open>v\<close>, the log-evidence is \<open>v * ln 2\<close> and every time step's
  posterior is \<open>[1 - v, v]\<close>.
\<close>

definition exampleFit ::
  "string list \<Rightarrow> real list option \<Rightarrow> real list list \<Rightarrow> bool \<Rightarrow> bool \<Rightarrow> pointResult"
where
  "exampleFit names values data forwardOnly evidenceOnly =
     (let v = (case values of Some (v # _) \<Rightarrow> v | _ \<Rightarrow> 0)
      in \<lparr>pLogEvidence = Fin (v * ln 2),
          pLocalEvidence = map (\<lambda>d. Fin 1) data,
          pPosteriorSequence = map (\<lambda>d. [Fin (1 - v), Fin v]) data,
          pPosteriorMeanValues = [map (\<lambda>d. Fin v) data]\<rparr>)"

definition exampleEnv :: collaborators where
  "exampleEnv =
     \<lparr>movingWindow = map (\<lambda>x. [x]), gridSize = [2], grid = [[0, 1]],
      checkConsistency = (\<lambda>s. True), studyFit = exampleFit, pathosAvailable = True\<rparr>"

text \<open>A study with one observation.\<close>

definition exampleStudy :: rasterStudy where
  "exampleStudy = newRasterStudy\<lparr>rawData := [0]\<rparr>"

section \<open>Predicates used in the statements\<close>

text \<open>
  The aggregate results of an earlier fit and the trace of the filtering routine are
  the same in both states.
\<close>

definition untouched :: "rasterStudy \<Rightarrow> rasterStudy \<Rightarrow> bool" where
  "untouched s s' =
     (fitCalls s' = fitCalls s \<and> logEvidence s' = logEvidence s
      \<and> localEvidence s' = localEvidence s
      \<and> posteriorSequence s' = posteriorSequence s
      \<and> posteriorMeanValues s' = posteriorMeanValues s
      \<and> hyperParameterDistribution s' = hyperParameterDistribution s)"

text \<open>
  The evenly spaced values between a lower and an upper bound, and the full Cartesian
  product of the axes of a raster in which the first dimension varies slowest and the
  last fastest (\<open>product_lists\<close> lists the combinations in this order).
\<close>

definition evenlySpaced :: "real \<Rightarrow> real \<Rightarrow> nat \<Rightarrow> real list" where
  "evenlySpaced lower upper n =
     map (\<lambda>i. lower + real i * (upper - lower) / (real n - 1)) [0..<n]"

definition regularGrid :: "rasterEntry list \<Rightarrow> real list list" where
  "regularGrid rs =
     product_lists (map (\<lambda>(name, lower, upper, steps). evenlySpaced lower upper (nat steps)) rs)"

text \<open>The raster attributes are the same in both states.\<close>

definition sameGrid :: "rasterStudy \<Rightarrow> rasterStudy \<Rightarrow> bool" where
  "sameGrid s s' = (raster s' = raster s \<and> rasterValues s' = rasterValues s
                     \<and> rasterConstant s' = rasterConstant s)"

text \<open>
  The per-point product of the density values, and the probability mass that the prior
  evaluator assigns: uniform without densities, else the product divided by the total
  over all grid points.
\<close>

definition densityProduct :: "priorSpec list \<Rightarrow> real list \<Rightarrow> real" where
  "densityProduct prior point = prod_list (map2 (\<lambda>p x. pdf p x) prior point)"

definition priorMass :: "priorSpec list \<Rightarrow> real list list \<Rightarrow> real list" where
  "priorMass prior rv =
     (if prior = [] then replicate (length rv) (1 / real (length rv))
      else map (\<lambda>point. densityProduct prior point / sum_list (map (densityProduct prior) rv)) rv)"

text \<open>The density of a uniform distribution on an interval, without free parameters.\<close>

definition uniformDensity :: "real \<Rightarrow> real \<Rightarrow> priorSpec" where
  "uniformDensity a b =
     \<lparr>freeSymbols = False, pdf = (\<lambda>x. if a \<le> x \<and> x \<le> b then 1 / (b - a) else 0)\<rparr>"

text \<open>
  The example study after the grid builder has run on the raster
  \<^verbatim>\<open>[['sigma', 0, 1, 3]]\<close>.
\<close>

definition sigmaStudy :: rasterStudy where
  "sigmaStudy =
     exampleStudy\<lparr>raster := [(''sigma'', 0, 1, 3)],
                  rasterValues := [[0], [1 / 2], [1]],
                  rasterConstant := [Fin (1 / 2)]\<rparr>"



text \<open>
  The example study after the evidence-only sweep over the raster
  \<^verbatim>\<open>[['sigma', 0, 1, 2]]\<close> with a uniform prior.
\<close>

definition sweptStudy :: rasterStudy where
  "sweptStudy =
     exampleStudy\<lparr>raster := [(''sigma'', 0, 1, 2)], rasterValues := [[0], [1]],
                  rasterConstant := [Fin 1],
                  hyperParameterPrior := Some [Fin (1 / 2), Fin (1 / 2)],
                  logEvidenceList := [Fin 0, Fin (ln 2)],
                  localEvidenceList := [[Fin 1], [Fin 1]],
                  formattedData := [[0]],
                  selectedHyperParameters := [''sigma''],
                  hyperParameterValues := Some [1],
                  logEvidence := Fin (ln 2),
                  localEvidence := [Fin 1],
                  fitCalls := [\<lparr>callNames = [''sigma''], callValues = Some [0],
                                 callForwardOnly = False, callEvidenceOnly = True,
                                 callSilent = True\<rparr>,
                               \<lparr>callNames = [''sigma''], callValues = Some [1],
                                 callForwardOnly = False, callEvidenceOnly = True,
                                 callSilent = True\<rparr>]\<rparr>"





text \<open>
  The state of the sweep in terms of reals: the selected names, the formatted data, the
  prior \<open>p\<close>, the log-evidences \<open>lr\<close> collected so far and the accumulator \<open>A\<close>.
\<close>

definition sweepState ::
  "string list \<Rightarrow> real list list \<Rightarrow> real list \<Rightarrow> real list \<Rightarrow> real list list \<Rightarrow> rasterStudy \<Rightarrow> bool"
where
  "sweepState names data p lr A s =
     (selectedHyperParameters s = names \<and> formattedData s = data
      \<and> hyperParameterPrior s = Some (map Fin p)
      \<and> logEvidenceList s = map Fin lr
      \<and> averagePosteriorSequence s = Some (map (map Fin) A))"





text \<open>
  The example study before the sweep of a fit over the raster \<^verbatim>\<open>[['sigma', 0, 1, 2]]\<close>
  with a uniform prior, not evidence-only.
\<close>

definition preparedStudy :: rasterStudy where
  "preparedStudy =
     exampleStudy\<lparr>raster := [(''sigma'', 0, 1, 2)], rasterValues := [[0], [1]],
                  rasterConstant := [Fin 1],
                  hyperParameterPrior := Some [Fin (1 / 2), Fin (1 / 2)],
                  averagePosteriorSequence := Some [[Fin 0, Fin 0]],
                  formattedData := [[0]],
                  selectedHyperParameters := [''sigma'']\<rparr>"


text \<open>
  The marginal density of dimension \<open>k\<close> as the specification states it: the density
  \<open>d\<close> over the grid of the given shape summed over all other dimensions, times the
  product of the spacing constants \<open>c\<close> of the other dimensions.
\<close>

definition marginalDensity :: "nat list \<Rightarrow> nat \<Rightarrow> real list \<Rightarrow> real list \<Rightarrow> real list" where
  "marginalDensity shape k d c =
     map (\<lambda>j. sum_list (map (\<lambda>f. d ! f)
                    (filter (\<lambda>f. unravel_index f shape ! k = j) [0..<length d]))
              * prod_list (map (\<lambda>a. c ! a) (filter (\<lambda>a. a \<noteq> k) [0..<length c])))
         [0..<shape ! k]"

text \<open>
  A study with a fitted density over the raster
  \<^verbatim>\<open>[['sigma', 0, 1, 2], ['p', 0, 2, 3]]\<close>, and a study prepared for a fit with a
  custom raster of two points whose dummy \<^verbatim>\<open>raster\<close> attribute only names the
  hyper-parameter.
\<close>

definition fittedStudy :: rasterStudy where
  "fittedStudy =
     exampleStudy\<lparr>raster := [(''sigma'', 0, 1, 2), (''p'', 0, 2, 3)],
                  rasterValues := [[0, 0], [0, 1], [0, 2], [1, 0], [1, 1], [1, 2]],
                  rasterConstant := [Fin 1, Fin 1],
                  hyperParameterDistribution :=
                    Some [Fin (1 / 12), Fin (1 / 6), Fin (1 / 4),
                          Fin (1 / 12), Fin (1 / 6), Fin (1 / 4)]\<rparr>"

definition customStudy :: rasterStudy where
  "customStudy =
     exampleStudy\<lparr>raster := [(''sigma'', 0, 0, 0)],
                  rasterValues := [[0], [1]],
                  rasterConstant := [Fin 1]\<rparr>"


text \<open>
  The inputs of the evidence aggregation other than the evidence lists are the same in
  both states.
\<close>

definition sameInputs :: "rasterStudy \<Rightarrow> rasterStudy \<Rightarrow> bool" where
  "sameInputs s s' =
     (selectedHyperParameters s' = selectedHyperParameters s \<and> formattedData s' = formattedData s
      \<and> hyperParameterPrior s' = hyperParameterPrior s \<and> rasterConstant s' = rasterConstant s)"


section \<open>Configuration errors and the fit without a raster\<close>

lemma setupRaster_untouched:
  "setupRaster env rasterArg fo eo custom silent s = Inr (r, s1) \<Longrightarrow> r \<noteq> Some StandardFit
     \<Longrightarrow> untouched s s1"
  by (auto simp: setupRaster_def untouched_def Let_def split: if_splits sum.splits)

lemma setupPrior_untouched:
  "setupPrior prior s = Inr (r, s1) \<Longrightarrow> untouched s s1"
  by (auto simp: setupPrior_def untouched_def Let_def
           split: if_splits sum.splits list.splits prod.splits bool.splits)

lemma prepareSweep_untouched: "untouched s (prepareSweep env eo s)"
  by (simp add: prepareSweep_def untouched_def)

lemma untouched_trans: "untouched a b \<Longrightarrow> untouched b c \<Longrightarrow> untouched a c"
  by (simp add: untouched_def)

lemma untouched_formattedData: "untouched s (s\<lparr>formattedData := d\<rparr>)"
  by (simp add: untouched_def)

text \<open>The conditions under which \<^verbatim>\<open>fit\<close> prints a configuration message and returns.\<close>

lemma fit_custom_no_raster:
  "raster s = [] \<Longrightarrow> fit env rasterArg prior fo eo True silent nJobs s = Inr (NoDummyRaster, s)"
  by (simp add: fit_def setupRaster_def)

lemma fit_custom_no_rasterValues:
  "raster s \<noteq> [] \<Longrightarrow> rasterValues s = [] \<Longrightarrow>
     fit env rasterArg prior fo eo True silent nJobs s = Inr (NoRasterValues, s)"
  by (simp add: fit_def setupRaster_def)

lemma fit_custom_no_rasterConstant:
  "raster s \<noteq> [] \<Longrightarrow> rasterValues s \<noteq> [] \<Longrightarrow> rasterConstant s = [] \<Longrightarrow>
     fit env rasterArg prior fo eo True silent nJobs s = Inr (NoRasterConstant, s)"
  by (simp add: fit_def setupRaster_def)

lemma setupPrior_count_mismatch:
  "prior \<noteq> [] \<Longrightarrow> rasterValues s = r0 # rest \<Longrightarrow> length prior \<noteq> length r0 \<Longrightarrow>
     setupPrior prior s = Inr (Some PriorCountMismatch, s)"
  by (simp add: setupPrior_def)

lemma priorLoop_free_symbols:
  "freeSymbols p \<Longrightarrow> priorLoop ((i, p) # rest) rv hp = Inr (True, hp)"
  by simp

text \<open>
  C4.  Whenever \<^verbatim>\<open>fit\<close> returns with a configuration message (a missing attribute of a
  custom raster, a prior list of the wrong length, a prior with free parameters, a
  failed consistency check), the single-point filtering routine has not been invoked
  (the trace of its calls is the one before the call) and the total log-evidence, the
  local evidence, the posterior sequence, the posterior mean values and the
  hyper-parameter distribution of the instance are the ones before the call.
\<close>

theorem fit_config_error_untouched:
  assumes fit: "fit env rasterArg prior fo eo custom silent nJobs s = Inr (outcome, s')"
    and out: "outcome \<noteq> StandardFit" "outcome \<noteq> Finished"
  shows "untouched s s'"
proof (cases "setupRaster env rasterArg fo eo custom silent s")
  case (Inl e)
  with fit show ?thesis by (simp add: fit_def)
next
  case (Inr p1)
  note sr = this
  obtain r1 s1 where p1: "p1 = (r1, s1)" by (cases p1)
  show ?thesis
  proof (cases r1)
    case (Some o1)
    with fit sr p1 have "outcome = o1" "s' = s1" by (simp_all add: fit_def)
    with out sr p1 Some show ?thesis by (auto dest: setupRaster_untouched)
  next
    case None
    with sr p1 have u1: "untouched s s1" by (auto dest: setupRaster_untouched)
    let ?s1 = "s1\<lparr>formattedData := movingWindow env (rawData s1)\<rparr>"
    have u1': "untouched s ?s1"
      using u1 untouched_formattedData untouched_trans by blast
    show ?thesis
    proof (cases "setupPrior prior ?s1")
      case (Inl e)
      with fit sr p1 None show ?thesis by (simp add: fit_def)
    next
      case (Inr p2)
      note sp = this
      obtain r2 s2 where p2: "p2 = (r2, s2)" by (cases p2)
      from sp p2 have u2: "untouched ?s1 s2" by (auto dest: setupPrior_untouched)
      with u1' have u2': "untouched s s2" using untouched_trans by blast
      show ?thesis
      proof (cases r2)
        case (Some o2)
        with fit sr p1 None sp p2 have "s' = s2" by (simp add: fit_def)
        with u2' show ?thesis by simp
      next
        case N2: None
        have u3: "untouched s (prepareSweep env eo s2)"
          using u2' prepareSweep_untouched untouched_trans by blast
        from fit sr p1 None sp p2 N2 out have "s' = prepareSweep env eo s2"
          by (auto simp: fit_def Let_def split: if_splits sum.splits)
        with u3 show ?thesis by simp
      qed
    qed
  qed
qed

theorem fit_config_error_untouched_witness:
  "map_sum id fst (fit (exampleEnv\<lparr>checkConsistency := (\<lambda>s. False)\<rparr>) [(''sigma'', 0, 1, 3)] []
                     False False False False 1 exampleStudy) = Inr Inconsistent
   \<and> untouched exampleStudy
        (snd (projr (fit (exampleEnv\<lparr>checkConsistency := (\<lambda>s. False)\<rparr>) [(''sigma'', 0, 1, 3)] []
                       False False False False 1 exampleStudy)))"
proof -
  obtain s' where h: "fit (exampleEnv\<lparr>checkConsistency := (\<lambda>s. False)\<rparr>) [(''sigma'', 0, 1, 3)] []
                       False False False False 1 exampleStudy = Inr (Inconsistent, s')"
    by (simp add: fit_def setupRaster_def setupPrior_def prepareSweep_def buildRasterValues_def
          rasterAxes_def linspace_def meshgrid_ij_ravel_def upt_rec exampleEnv_def
          exampleStudy_def newRasterStudy_def Let_def)
  from fit_config_error_untouched [OF h] have "untouched exampleStudy s'" by simp
  with h show ?thesis by simp
qed

text \<open>
  The accumulator attribute \<^verbatim>\<open>averagePosteriorSequence\<close>, which is not among the aggregate
  results above, has been set to zeros when the consistency check fails in a fit that
  is not evidence-only (line 135 precedes the check).
\<close>

lemma setupRaster_outcome:
  "setupRaster env rasterArg fo eo custom silent s = Inr (Some out, s1) \<Longrightarrow>
     out = StandardFit \<or> out = NoDummyRaster \<or> out = NoRasterValues \<or> out = NoRasterConstant"
  by (auto simp: setupRaster_def Let_def split: if_splits sum.splits)

lemma setupPrior_outcome:
  "setupPrior prior s = Inr (Some out, s1) \<Longrightarrow>
     out = PriorCountMismatch \<or> out = PriorFreeParameters"
  by (auto simp: setupPrior_def Let_def
           split: if_splits sum.splits list.splits prod.splits bool.splits)

lemma fit_inconsistent_accumulator:
  assumes "fit env rasterArg prior fo False custom silent nJobs s = Inr (Inconsistent, s')"
  shows "averagePosteriorSequence s' =
           Some (replicate (length (formattedData s')) (replicate (prod_list (gridSize env)) (Fin 0)))"
  using assms
  by (auto simp: fit_def Let_def prepareSweep_def
           split: sum.splits prod.splits option.splits if_splits
           dest: setupRaster_outcome setupPrior_outcome)


text \<open>
  C9.  Without a custom raster and with an empty \<^verbatim>\<open>raster\<close> argument, \<^verbatim>\<open>fit\<close> raises
  nothing and prints no configuration error: it stores the empty raster, calls the
  standard fit method once with the given flags and returns; the raster values, the
  spacing constants, the prior and the hyper-parameter distribution stay as they were.
\<close>

theorem fit_empty_raster_standard_fit:
  "fit env [] prior fo eo False silent nJobs s =
     Inr (StandardFit, callStudyFit env fo eo silent (s\<lparr>raster := []\<rparr>))
   \<and> fitCalls (callStudyFit env fo eo silent (s\<lparr>raster := []\<rparr>)) =
       fitCalls s @ [\<lparr>callNames = selectedHyperParameters s, callValues = hyperParameterValues s,
                      callForwardOnly = fo, callEvidenceOnly = eo, callSilent = silent\<rparr>]
   \<and> rasterValues (callStudyFit env fo eo silent (s\<lparr>raster := []\<rparr>)) = rasterValues s
   \<and> rasterConstant (callStudyFit env fo eo silent (s\<lparr>raster := []\<rparr>)) = rasterConstant s
   \<and> hyperParameterPrior (callStudyFit env fo eo silent (s\<lparr>raster := []\<rparr>)) =
       hyperParameterPrior s
   \<and> hyperParameterDistribution (callStudyFit env fo eo silent (s\<lparr>raster := []\<rparr>)) =
       hyperParameterDistribution s"
  by (simp add: fit_def setupRaster_def callStudyFit_def Let_def)

section \<open>Spacing constants\<close>

lemma spacingConstant_one:
  "spacingConstant (name, lower, upper, 1) = (if upper = lower then NaN else PInf)"
  by (simp add: spacingConstant_def)

text \<open>
  C10.  For a raster dimension with one step, the divisor \<open>float(steps) - 1\<close> of the
  spacing constant is zero and nothing guards the division: the spacing constant of
  that dimension is infinite, or NaN when the bounds coincide, and never a finite
  number.
\<close>

theorem spacingConstant_single_step_not_finite:
  assumes "d < length rs" and "rs ! d = (name, lower, upper, 1)"
  shows "real_of_int (snd (snd (snd (rs ! d)))) - 1 = 0
         \<and> buildRasterConstant rs ! d = (if upper = lower then NaN else PInf)
         \<and> \<not> isFin (buildRasterConstant rs ! d)"
  using assms by (simp add: buildRasterConstant_def spacingConstant_one)

theorem spacingConstant_single_step_not_finite_witness:
  "(0::nat) < length [(''sigma'', 0::real, 1::real, 1::int)]
   \<and> buildRasterConstant [(''sigma'', 0, 1, 1)] ! 0 = PInf
   \<and> \<not> isFin (buildRasterConstant [(''sigma'', 0, 1, 1)] ! 0)"
  using spacingConstant_single_step_not_finite [of 0 "[(''sigma'', 0, 1, 1)]" "''sigma''" 0 1]
  by simp

section \<open>The grid of a regular raster\<close>

lemma nth_concat_uniform:
  "(\<And>x. x \<in> set xs \<Longrightarrow> length (g x) = m) \<Longrightarrow> f < length xs * m \<Longrightarrow>
     concat (map g xs) ! f = g (xs ! (f div m)) ! (f mod m)"
proof (induction xs arbitrary: f)
  case Nil
  then show ?case by simp
next
  case (Cons x xs)
  have len: "length (g x) = m" using Cons.prems(1) by simp
  show ?case
  proof (cases "f < m")
    case True
    then show ?thesis using len by (simp add: nth_append)
  next
    case False
    then have ge: "m \<le> f" by simp
    have m0: "0 < m" using Cons.prems(2) by (cases m) auto
    have lt: "f - m < length xs * m" using Cons.prems(2) ge by simp
    have d: "f div m = Suc ((f - m) div m)"
      using ge m0 by (simp add: le_div_geq)
    have mo: "f mod m = (f - m) mod m"
      using ge by (simp add: le_mod_geq)
    have "concat (map g (x # xs)) ! f = concat (map g xs) ! (f - m)"
      using False len by (simp add: nth_append)
    also have "\<dots> = g (xs ! ((f - m) div m)) ! ((f - m) mod m)"
      using Cons.IH [OF _ lt] Cons.prems(1) by simp
    finally show ?thesis using d mo by simp
  qed
qed

lemma length_product_lists_prod:
  "length (product_lists xss) = prod_list (map length xss)"
  by (induction xss) (simp_all add: length_concat o_def sum_list_triv)

lemma product_lists_nth:
  "f < prod_list (map length xss) \<Longrightarrow>
     product_lists xss ! f =
       map (\<lambda>k. xss ! k ! (unravel_index f (map length xss) ! k)) [0..<length xss]"
proof (induction xss arbitrary: f)
  case Nil
  then show ?case by simp
next
  case (Cons xs xss)
  let ?M = "prod_list (map length xss)"
  from Cons.prems have f: "f < length xs * ?M" by simp
  then have M0: "0 < ?M" by (cases ?M) auto
  then have fm: "f mod ?M < ?M" by simp
  have fd: "f div ?M < length xs" using f M0
    by (simp add: less_mult_imp_div_less)
  have "product_lists (xs # xss) ! f =
          map ((#) (xs ! (f div ?M))) (product_lists xss) ! (f mod ?M)"
    using nth_concat_uniform [of xs "\<lambda>x. map ((#) x) (product_lists xss)" ?M f] f
    by (simp add: length_product_lists_prod)
  also have "\<dots> = xs ! (f div ?M) # product_lists xss ! (f mod ?M)"
    using fm by (simp add: length_product_lists_prod)
  also have "product_lists xss ! (f mod ?M) =
       map (\<lambda>k. xss ! k ! (unravel_index (f mod ?M) (map length xss) ! k)) [0..<length xss]"
    using Cons.IH [OF fm] .
  finally show ?case
    by (simp add: upt_conv_Cons map_Suc_upt [symmetric] del: upt_Suc)
qed

lemma transpose_meshgrid:
  assumes "axes \<noteq> []"
  shows "transpose (meshgrid_ij_ravel axes) = product_lists axes"
proof -
  let ?N = "prod_list (map length axes)"
  let ?m = "meshgrid_ij_ravel axes"
  have len: "length ?m = length axes" by (simp add: meshgrid_ij_ravel_def)
  have rows: "\<And>i. i < length ?m \<Longrightarrow> length (?m ! i) = ?N"
    by (simp add: meshgrid_ij_ravel_def)
  have ne: "?m = [] \<Longrightarrow> ?N = 0" using assms len by auto
  have "transpose ?m = map (\<lambda>i. map (\<lambda>j. ?m ! j ! i) [0..<length ?m]) [0..<?N]"
    by (rule transpose_rectangle [OF ne rows])
  also have "\<dots> = product_lists axes"
    by (rule nth_equalityI)
      (simp_all add: length_product_lists_prod product_lists_nth len meshgrid_ij_ravel_def)
  finally show ?thesis .
qed


lemma linspace_evenlySpaced:
  "0 \<le> num \<Longrightarrow> linspace start stop num = Inr (evenlySpaced start stop (nat num))"
proof -
  assume n: "0 \<le> num"
  have "\<And>i. i < nat num \<Longrightarrow>
          (if 1 < num then (if Suc i = nat num then stop
                else real i * ((stop - start) / real_of_int (num - 1)) + start) else start)
          = start + real i * (stop - start) / (real (nat num) - 1)"
  proof -
    fix i assume i: "i < nat num"
    show "(if 1 < num then (if Suc i = nat num then stop
                else real i * ((stop - start) / real_of_int (num - 1)) + start) else start)
          = start + real i * (stop - start) / (real (nat num) - 1)"
    proof (cases "1 < num")
      case True
      then have r: "real (nat num) - 1 = real_of_int (num - 1)" by simp
      show ?thesis
      proof (cases "Suc i = nat num")
        case S: True
        then have ri: "real i = real_of_int num - 1" using True by linarith
        have nz: "real_of_int num - 1 \<noteq> 0" using True by simp
        have "real i * (stop - start) / (real_of_int num - 1) = stop - start"
          unfolding ri using nz by simp
        then show ?thesis using True S r by simp
      next
        case False
        then show ?thesis using True r by (simp add: algebra_simps)
      qed
    next
      case False
      with i n have "i = 0" by linarith
      then show ?thesis using False by simp
    qed
  qed
  then show ?thesis using n by (simp add: linspace_def evenlySpaced_def)
qed

lemma linspace_Inr_nonneg: "linspace start stop num = Inr xs \<Longrightarrow> 0 \<le> num"
  by (simp add: linspace_def split: if_splits)

lemma rasterAxes_Inr:
  "rasterAxes rs = Inr axes \<Longrightarrow>
     axes = map (\<lambda>(name, lower, upper, steps). evenlySpaced lower upper (nat steps)) rs
     \<and> (\<forall>(name, lower, upper, steps) \<in> set rs. 0 \<le> steps)"
proof (induction rs arbitrary: axes)
  case Nil
  then show ?case by (simp add: rasterAxes_def)
next
  case (Cons e rs)
  obtain name lower upper steps where e: "e = (name, lower, upper, steps)" by (cases e)
  from Cons.prems e obtain x xs where
    x: "linspace lower upper steps = Inr x" and xs: "rasterAxes rs = Inr xs" and a: "axes = x # xs"
    by (auto simp: rasterAxes_def split: sum.splits)
  from x have n: "0 \<le> steps" by (rule linspace_Inr_nonneg)
  with x have "x = evenlySpaced lower upper (nat steps)" by (simp add: linspace_evenlySpaced)
  with Cons.IH [OF xs] a e n show ?case by simp
qed

lemma length_evenlySpaced: "length (evenlySpaced l u n) = n"
  by (simp add: evenlySpaced_def)

lemma length_regularGrid:
  "length (regularGrid rs) = prod_list (map (\<lambda>(name, lower, upper, steps). nat steps) rs)"
  by (simp add: regularGrid_def length_product_lists_prod o_def split_def length_evenlySpaced)

lemma buildRasterValues_Inr:
  "rs \<noteq> [] \<Longrightarrow> buildRasterValues rs = Inr rv \<Longrightarrow>
     rv = regularGrid rs \<and> (\<forall>(name, lower, upper, steps) \<in> set rs. 0 \<le> steps)"
  by (auto simp: buildRasterValues_def regularGrid_def transpose_meshgrid
           split: sum.splits dest!: rasterAxes_Inr)

lemma sweepStep_sameGrid: "sweepStep env fo eo i hp s = Inr s' \<Longrightarrow> sameGrid s s'"
  by (auto simp: sweepStep_def sameGrid_def Let_def setSelectedHyperParameters_def callStudyFit_def
           split: if_splits sum.splits option.splits)

lemma sameGrid_trans: "sameGrid a b \<Longrightarrow> sameGrid b c \<Longrightarrow> sameGrid a c"
  by (simp add: sameGrid_def)

lemma sweepLoop_sameGrid: "sweepLoop env fo eo ps s = Inr s' \<Longrightarrow> sameGrid s s'"
proof (induction ps arbitrary: s)
  case Nil
  then show ?case by (simp add: sameGrid_def)
next
  case (Cons p ps)
  obtain i hp where p: "p = (i, hp)" by (cases p)
  from Cons.prems p obtain s1 where
    s1: "sweepStep env fo eo i hp s = Inr s1" and r: "sweepLoop env fo eo ps s1 = Inr s'"
    by (auto split: sum.splits)
  from sweepStep_sameGrid [OF s1] Cons.IH [OF r] show ?case by (rule sameGrid_trans)
qed

lemma mergeSubStudy_sameGrid: "mergeSubStudy eo self S = Inr s' \<Longrightarrow> sameGrid self s'"
  by (auto simp: mergeSubStudy_def sameGrid_def Let_def split: if_splits option.splits)

lemma mergeSubStudies_sameGrid: "mergeSubStudies eo Ss self = Inr s' \<Longrightarrow> sameGrid self s'"
proof (induction Ss arbitrary: self)
  case Nil
  then show ?case by (simp add: sameGrid_def)
next
  case (Cons S Ss)
  from Cons.prems obtain s1 where
    s1: "mergeSubStudy eo self S = Inr s1" and r: "mergeSubStudies eo Ss s1 = Inr s'"
    by (auto split: sum.splits)
  from mergeSubStudy_sameGrid [OF s1] Cons.IH [OF r] show ?case by (rule sameGrid_trans)
qed

lemma runSweep_sameGrid: "runSweep env fo eo nJobs s = Inr s' \<Longrightarrow> sameGrid s s'"
  by (auto simp: runSweep_def sweep_def Let_def split: if_splits sum.splits
           dest: sweepLoop_sameGrid mergeSubStudies_sameGrid)

lemma aggregate_sameGrid: "aggregate env eo s = Inr s' \<Longrightarrow> sameGrid s s'"
  by (auto simp: aggregate_def sameGrid_def Let_def split: if_splits sum.splits option.splits)

lemma setupPrior_sameGrid: "setupPrior prior s = Inr (r, s') \<Longrightarrow> sameGrid s s'"
  by (auto simp: setupPrior_def sameGrid_def Let_def
           split: if_splits sum.splits list.splits prod.splits bool.splits)

lemma prepareSweep_sameGrid: "sameGrid s (prepareSweep env eo s)"
  by (simp add: prepareSweep_def sameGrid_def)

lemma setupRaster_regular:
  "rs \<noteq> [] \<Longrightarrow> setupRaster env rs fo eo False silent s = Inr (r, s1) \<Longrightarrow>
     rasterValues s1 = regularGrid rs \<and> raster s1 = rs
     \<and> rasterConstant s1 = buildRasterConstant rs
     \<and> (\<forall>(name, lower, upper, steps) \<in> set rs. 0 \<le> steps)"
  by (auto simp: setupRaster_def Let_def split: sum.splits dest: buildRasterValues_Inr)


lemma sameGrid_refl: "sameGrid s s"
  by (simp add: sameGrid_def)

lemma sameGrid_formattedData: "sameGrid s (s\<lparr>formattedData := d\<rparr>)"
  by (simp add: sameGrid_def)

lemma fit_sameGrid:
  assumes fit: "fit env rs prior fo eo custom silent nJobs s = Inr (outcome, s')"
  shows "\<exists>r s1. setupRaster env rs fo eo custom silent s = Inr (r, s1) \<and> sameGrid s1 s'"
proof -
  from fit obtain r s1 where sr: "setupRaster env rs fo eo custom silent s = Inr (r, s1)"
    by (auto simp: fit_def split: sum.splits)
  have "sameGrid s1 s'"
  proof (cases r)
    case (Some o1)
    with fit sr have "s' = s1" by (simp add: fit_def)
    then show ?thesis by (simp add: sameGrid_refl)
  next
    case None
    let ?s1 = "s1\<lparr>formattedData := movingWindow env (rawData s1)\<rparr>"
    from fit sr None obtain r2 s2 where sp: "setupPrior prior ?s1 = Inr (r2, s2)"
      by (auto simp: fit_def split: sum.splits)
    have g2: "sameGrid s1 s2"
      using sameGrid_formattedData setupPrior_sameGrid [OF sp] sameGrid_trans by blast
    show ?thesis
    proof (cases r2)
      case (Some o2)
      with fit sr None sp have "s' = s2" by (simp add: fit_def)
      with g2 show ?thesis by simp
    next
      case N2: None
      let ?s3 = "prepareSweep env eo s2"
      have g3: "sameGrid s1 ?s3"
        using g2 prepareSweep_sameGrid sameGrid_trans by blast
      show ?thesis
      proof (cases "checkConsistency env ?s3")
        case False
        with fit sr None sp N2 have "s' = ?s3" by (simp add: fit_def Let_def)
        with g3 show ?thesis by simp
      next
        case True
        with fit sr None sp N2 obtain s4 where
          rs: "runSweep env fo eo nJobs ?s3 = Inr s4" and ag: "aggregate env eo s4 = Inr s'"
          by (auto simp: fit_def Let_def split: sum.splits)
        from g3 runSweep_sameGrid [OF rs] aggregate_sameGrid [OF ag] show ?thesis
          using sameGrid_trans by blast
      qed
    qed
  qed
  with sr show ?thesis by blast
qed


lemma rasterAxes_total:
  "\<forall>(name, lower, upper, steps) \<in> set rs. 0 \<le> steps \<Longrightarrow>
     rasterAxes rs =
       Inr (map (\<lambda>(name, lower, upper, steps). evenlySpaced lower upper (nat steps)) rs)"
proof (induction rs)
  case Nil
  then show ?case by (simp add: rasterAxes_def)
next
  case (Cons e rs)
  obtain name lower upper steps where e: "e = (name, lower, upper, steps)" by (cases e)
  from Cons.prems e have n: "0 \<le> steps" by simp
  from Cons.prems have "\<forall>(name, lower, upper, steps) \<in> set rs. 0 \<le> steps" by simp
  from Cons.IH [OF this] e n show ?case
    by (simp add: rasterAxes_def linspace_evenlySpaced)
qed

lemma setupRaster_total:
  assumes "rs \<noteq> []" and "\<forall>(name, lower, upper, steps) \<in> set rs. 0 \<le> steps"
  shows "setupRaster env rs fo eo False silent s =
           Inr (None, s\<lparr>raster := rs, rasterValues := regularGrid rs,
                         rasterConstant := buildRasterConstant rs\<rparr>)"
  using assms
  by (simp add: setupRaster_def buildRasterValues_def rasterAxes_total regularGrid_def
        transpose_meshgrid)

text \<open>
  C6.  For a non-empty regular raster whose step counts are not negative, \<^verbatim>\<open>fit\<close>
  builds the grid of all combinations of the evenly spaced values of the dimensions,
  listed with the first dimension varying slowest and the last fastest; the number of
  its points is the product of the step counts; and the grid is still the value of
  \<^verbatim>\<open>rasterValues\<close> whenever \<^verbatim>\<open>fit\<close> returns.
\<close>

theorem fit_regular_raster_grid:
  assumes ne: "rs \<noteq> []"
    and steps: "\<forall>(name, lower, upper, steps) \<in> set rs. 0 \<le> steps"
  shows "setupRaster env rs fo eo False silent s =
           Inr (None, s\<lparr>raster := rs, rasterValues := regularGrid rs,
                         rasterConstant := buildRasterConstant rs\<rparr>)
         \<and> length (regularGrid rs) = prod_list (map (\<lambda>(name, lower, upper, steps). nat steps) rs)
         \<and> (fit env rs prior fo eo False silent nJobs s = Inr (outcome, s')
              \<longrightarrow> rasterValues s' = regularGrid rs)"
proof (intro conjI impI)
  show "setupRaster env rs fo eo False silent s =
          Inr (None, s\<lparr>raster := rs, rasterValues := regularGrid rs,
                        rasterConstant := buildRasterConstant rs\<rparr>)"
    using ne steps by (rule setupRaster_total)
  show "length (regularGrid rs) = prod_list (map (\<lambda>(name, lower, upper, steps). nat steps) rs)"
    by (rule length_regularGrid)
next
  assume fit: "fit env rs prior fo eo False silent nJobs s = Inr (outcome, s')"
  from fit_sameGrid [OF fit] obtain r s1 where
    sr: "setupRaster env rs fo eo False silent s = Inr (r, s1)" and g: "sameGrid s1 s'"
    by blast
  from setupRaster_regular [OF ne sr] g show "rasterValues s' = regularGrid rs"
    by (simp add: sameGrid_def)
qed

lemma regularGrid_example:
  "regularGrid [(''sigma'', 0, 1, 2), (''p'', 0, 2, 3)]
     = [[0, 0], [0, 1], [0, 2], [1, 0], [1, 1], [1, 2]]"
  by (simp add: regularGrid_def evenlySpaced_def upt_rec)

theorem fit_regular_raster_grid_witness:
  "length (regularGrid [(''sigma'', 0, 1, 2), (''p'', 0, 2, 3)]) = 6
   \<and> regularGrid [(''sigma'', 0, 1, 2), (''p'', 0, 2, 3)]
       = [[0, 0], [0, 1], [0, 2], [1, 0], [1, 1], [1, 2]]
   \<and> map_sum id fst (fit (exampleEnv\<lparr>checkConsistency := (\<lambda>s. False)\<rparr>)
                         [(''sigma'', 0, 1, 2), (''p'', 0, 2, 3)] []
                         False False False False 1 exampleStudy) = Inr Inconsistent
   \<and> rasterValues (snd (projr (fit (exampleEnv\<lparr>checkConsistency := (\<lambda>s. False)\<rparr>)
                                [(''sigma'', 0, 1, 2), (''p'', 0, 2, 3)] []
                                False False False False 1 exampleStudy)))
       = [[0, 0], [0, 1], [0, 2], [1, 0], [1, 1], [1, 2]]"
proof -
  let ?rs = "[(''sigma'', 0::real, 1::real, 2::int), (''p'', 0, 2, 3)]"
  let ?env = "exampleEnv\<lparr>checkConsistency := (\<lambda>s. False)\<rparr>"
  have ne: "?rs \<noteq> []" by simp
  have st: "\<forall>(name, lower, upper, steps) \<in> set ?rs. 0 \<le> steps" by simp
  have sr: "setupRaster ?env ?rs False False False False exampleStudy =
          Inr (None, exampleStudy\<lparr>raster := ?rs, rasterValues := regularGrid ?rs,
                                   rasterConstant := buildRasterConstant ?rs\<rparr>)"
    using fit_regular_raster_grid [OF ne st] by blast
  have [simp]: "\<And>x. checkConsistency ?env x = False" by (simp add: exampleEnv_def)
  obtain s' where h: "fit ?env ?rs [] False False False False 1 exampleStudy = Inr (Inconsistent, s')"
    by (simp add: fit_def sr setupPrior_def Let_def)
  from fit_regular_raster_grid [OF ne st, of ?env False False False exampleStudy "[]" 1 Inconsistent s'] h
  have "rasterValues s' = regularGrid ?rs"
    and "length (regularGrid ?rs) = prod_list (map (\<lambda>(name, lower, upper, steps). nat steps) ?rs)"
    by blast+
  with h show ?thesis by (simp add: regularGrid_example)
qed

section \<open>The hyper-parameter prior\<close>

lemma fsum_Fin [simp]: "fsum (map Fin xs) = Fin (sum_list xs)"
  by (induction xs) (simp_all add: fsum_def)

lemma fsum_Fin_map [simp]: "fsum (map (\<lambda>x. Fin (f x)) xs) = Fin (sum_list (map f xs))"
  by (induction xs) (simp_all add: fsum_def)

lemma fprod_Fin_map [simp]: "fprod (map (\<lambda>x. Fin (f x)) xs) = Fin (prod_list (map f xs))"
  by (induction xs) (simp_all add: fprod_def)

lemma fprod_Fin [simp]: "fprod (map Fin xs) = Fin (prod_list xs)"
  by (induction xs) (simp_all add: fprod_def)

lemma column_rect:
  "list_all (\<lambda>r. length r = D) rv \<Longrightarrow> k < D \<Longrightarrow> column k rv = Inr (map (\<lambda>r. r ! k) rv)"
  by (auto simp: column_def list_all_iff)

lemma densityProduct_Cons_drop:
  "k < length r \<Longrightarrow>
     densityProduct (p # ps) (drop k r) = pdf p (r ! k) * densityProduct ps (drop (Suc k) r)"
  by (simp add: densityProduct_def Cons_nth_drop_Suc [symmetric])

lemma priorLoop_densities:
  "list_all (\<lambda>r. length r = D) rv \<Longrightarrow> k + length ps \<le> D \<Longrightarrow> \<not> list_ex freeSymbols ps \<Longrightarrow>
     length w = length rv \<Longrightarrow>
     priorLoop (enumerate k ps) rv (map Fin w) =
       Inr (False, map Fin (map2 (\<lambda>w r. w * densityProduct ps (drop k r)) w rv))"
proof (induction ps arbitrary: k w)
  case Nil
  then have "map2 (\<lambda>w r. w * densityProduct [] (drop k r)) w rv = w"
    by (intro nth_equalityI) (simp_all add: densityProduct_def)
  then show ?case by simp
next
  case (Cons p ps)
  from Cons.prems have k: "k < D" by simp
  have col: "column k rv = Inr (map (\<lambda>r. r ! k) rv)"
    using Cons.prems(1) k by (rule column_rect)
  let ?w' = "map2 (\<lambda>w r. w * pdf p (r ! k)) w rv"
  have hp: "map2 fmul (map Fin w) (map (\<lambda>x. Fin (pdf p x)) (map (\<lambda>r. r ! k) rv)) = map Fin ?w'"
    by (simp add: zip_map1 zip_map2 o_def split_def)
  have len: "length ?w' = length rv" using Cons.prems(4) by simp
  have IH: "priorLoop (enumerate (Suc k) ps) rv (map Fin ?w') =
       Inr (False, map Fin (map2 (\<lambda>w r. w * densityProduct ps (drop (Suc k) r)) ?w' rv))"
    using Cons.IH [OF Cons.prems(1) _ _ len] Cons.prems(2,3) by simp
  have eq: "map2 (\<lambda>w r. w * densityProduct ps (drop (Suc k) r)) ?w' rv
          = map2 (\<lambda>w r. w * densityProduct (p # ps) (drop k r)) w rv"
  proof (rule nth_equalityI)
    show "length (map2 (\<lambda>w r. w * densityProduct ps (drop (Suc k) r)) ?w' rv)
          = length (map2 (\<lambda>w r. w * densityProduct (p # ps) (drop k r)) w rv)"
      using Cons.prems(4) by simp
  next
    fix i assume "i < length (map2 (\<lambda>w r. w * densityProduct ps (drop (Suc k) r)) ?w' rv)"
    then have i: "i < length rv" by simp
    then have "length (rv ! i) = D" using Cons.prems(1) by (simp add: list_all_length)
    then have "k < length (rv ! i)" using k by simp
    then show "map2 (\<lambda>w r. w * densityProduct ps (drop (Suc k) r)) ?w' rv ! i
          = map2 (\<lambda>w r. w * densityProduct (p # ps) (drop k r)) w rv ! i"
      using i Cons.prems(4) by (simp add: densityProduct_Cons_drop)
  qed
  from Cons.prems(3) have nf: "\<not> freeSymbols p" by simp
  show ?case using nf col hp IH eq by (simp add: enumerate_eq_zip upt_conv_Cons del: upt_Suc)
qed

lemma fdiv_Fin_map:
  "c \<noteq> 0 \<Longrightarrow> map (\<lambda>x. fdiv x (Fin c)) (map Fin xs) = map Fin (map (\<lambda>x. x / c) xs)"
  by simp

lemma sum_list_div_const: "sum_list (map (\<lambda>x. f x / c) xs) = sum_list (map f xs) / (c::real)"
  by (induction xs) (simp_all add: add_divide_distrib)

lemma prod_list_nonneg_real: "(\<forall>x \<in> set xs. 0 \<le> x) \<Longrightarrow> 0 \<le> prod_list (xs::real list)"
  by (induction xs) simp_all

lemma densityProduct_nonneg:
  "\<forall>p \<in> set prior. \<forall>x. 0 \<le> pdf p x \<Longrightarrow> 0 \<le> densityProduct prior point"
  unfolding densityProduct_def
  by (rule prod_list_nonneg_real) (auto dest: set_zip_leftD)

lemma setupPrior_uniform:
  assumes "rasterValues s \<noteq> []"
  shows "setupPrior [] s =
           Inr (None, s\<lparr>hyperParameterPrior := Some (map Fin (priorMass [] (rasterValues s)))\<rparr>)"
  using assms by (simp add: setupPrior_def priorMass_def Let_def)

lemma setupPrior_densities:
  assumes ne: "rasterValues s \<noteq> []"
    and rect: "list_all (\<lambda>r. length r = D) (rasterValues s)"
    and p: "prior \<noteq> []" "length prior = D" "\<not> list_ex freeSymbols prior"
    and W: "sum_list (map (densityProduct prior) (rasterValues s)) \<noteq> 0"
  shows "setupPrior prior s =
           Inr (None, s\<lparr>hyperParameterPrior := Some (map Fin (priorMass prior (rasterValues s)))\<rparr>)"
proof -
  let ?rv = "rasterValues s"
  let ?n = "length ?rv"
  obtain r0 rest where rv: "?rv = r0 # rest" using ne by (cases ?rv) auto
  with rect have r0: "length r0 = D" by simp
  have ones: "replicate ?n (Fin 1) = map Fin (replicate ?n 1)" by simp
  have a: "priorLoop (enumerate 0 prior) ?rv (map Fin (replicate ?n 1)) =
          Inr (False, map Fin (map2 (\<lambda>w r. w * densityProduct prior (drop 0 r)) (replicate ?n 1) ?rv))"
    using priorLoop_densities [OF rect, of 0 prior "replicate ?n 1"] p by simp
  have b: "map2 (\<lambda>w r. w * densityProduct prior (drop 0 r)) (replicate ?n 1) ?rv
                 = map (densityProduct prior) ?rv"
    by (intro nth_equalityI) simp_all
  have loop: "priorLoop (enumerate 0 prior) ?rv (replicate ?n (Fin 1)) =
          Inr (False, map Fin (map (densityProduct prior) ?rv))"
    using a unfolding b ones [symmetric] .
  have norm: "map (\<lambda>x. fdiv x (fsum (map Fin (map (densityProduct prior) ?rv))))
                  (map Fin (map (densityProduct prior) ?rv))
              = map Fin (priorMass prior ?rv)"
    using W p(1) by (simp add: priorMass_def o_def)
  show ?thesis
    unfolding setupPrior_def Let_def using p(1,2) r0 loop norm
    by (simp add: rv [symmetric]) (simp add: rv)
qed

lemma priorMass_sum:
  assumes "rv \<noteq> []"
    and "prior \<noteq> [] \<Longrightarrow> sum_list (map (densityProduct prior) rv) \<noteq> 0"
  shows "sum_list (priorMass prior rv) = 1"
  using assms by (auto simp: priorMass_def sum_list_replicate sum_list_div_const o_def)

lemma priorMass_nonneg:
  assumes "\<forall>p \<in> set prior. \<forall>x. 0 \<le> pdf p x" and "m \<in> set (priorMass prior rv)"
  shows "0 \<le> m"
proof (cases "prior = []")
  case True
  with assms(2) show ?thesis by (auto simp: priorMass_def)
next
  case False
  have "0 \<le> sum_list (map (densityProduct prior) rv)"
    by (rule sum_list_nonneg) (auto intro: densityProduct_nonneg [OF assms(1)])
  with False assms(2) show ?thesis
    by (auto simp: priorMass_def intro!: divide_nonneg_nonneg densityProduct_nonneg [OF assms(1)])
qed

lemma sigmaStudy_setupRaster:
  "setupRaster env [(''sigma'', 0, 1, 3)] fo eo False silent exampleStudy = Inr (None, sigmaStudy)"
  by (simp add: setupRaster_def buildRasterValues_def rasterAxes_def linspace_def
        meshgrid_ij_ravel_def upt_rec buildRasterConstant_def spacingConstant_def sigmaStudy_def)

text \<open>
  C7 (amended).  On a non-empty rectangular array of raster values the prior evaluator
  returns a vector with one entry per grid point: without densities every entry is
  \<open>1 / numGridPoints\<close>; with one density per dimension, none with free parameters,
  each entry is the per-point product of the density values divided by the total over
  all grid points.  The vector is non-negative and sums to 1, for supplied densities
  provided their values are non-negative and the total over the grid is not zero.
\<close>

theorem setupPrior_probability_mass:
  assumes ne: "rasterValues s \<noteq> []"
    and rect: "list_all (\<lambda>r. length r = D) (rasterValues s)"
    and dens: "prior \<noteq> [] \<Longrightarrow>
                 length prior = D \<and> \<not> list_ex freeSymbols prior
                 \<and> (\<forall>p \<in> set prior. \<forall>x. 0 \<le> pdf p x)
                 \<and> sum_list (map (densityProduct prior) (rasterValues s)) \<noteq> 0"
  shows "setupPrior prior s =
           Inr (None, s\<lparr>hyperParameterPrior := Some (map Fin (priorMass prior (rasterValues s)))\<rparr>)
         \<and> length (priorMass prior (rasterValues s)) = length (rasterValues s)
         \<and> (\<forall>m \<in> set (priorMass prior (rasterValues s)). 0 \<le> m)
         \<and> sum_list (priorMass prior (rasterValues s)) = 1"
proof (intro conjI ballI)
  show "setupPrior prior s =
           Inr (None, s\<lparr>hyperParameterPrior := Some (map Fin (priorMass prior (rasterValues s)))\<rparr>)"
  proof (cases "prior = []")
    case True
    then show ?thesis using setupPrior_uniform [OF ne] by simp
  next
    case False
    with dens ne rect show ?thesis by (intro setupPrior_densities) auto
  qed
  show "length (priorMass prior (rasterValues s)) = length (rasterValues s)"
    by (simp add: priorMass_def)
  show "sum_list (priorMass prior (rasterValues s)) = 1"
    using ne dens by (intro priorMass_sum) auto
next
  fix m assume m: "m \<in> set (priorMass prior (rasterValues s))"
  show "0 \<le> m"
  proof (cases "prior = []")
    case True
    with m show ?thesis by (auto simp: priorMass_def)
  next
    case False
    with dens have "\<forall>p \<in> set prior. \<forall>x. 0 \<le> pdf p x" by blast
    from priorMass_nonneg [OF this m] show ?thesis .
  qed
qed

theorem setupPrior_probability_mass_witness:
  "setupPrior [] sigmaStudy =
     Inr (None, sigmaStudy\<lparr>hyperParameterPrior := Some [Fin (1 / 3), Fin (1 / 3), Fin (1 / 3)]\<rparr>)
   \<and> sum_list (priorMass [] (rasterValues sigmaStudy)) = 1
   \<and> setupPrior [uniformDensity 0 (1 / 2)] sigmaStudy =
       Inr (None, sigmaStudy\<lparr>hyperParameterPrior := Some [Fin (1 / 2), Fin (1 / 2), Fin 0]\<rparr>)
   \<and> sum_list (priorMass [uniformDensity 0 (1 / 2)] (rasterValues sigmaStudy)) = 1"
proof -
  have ne: "rasterValues sigmaStudy \<noteq> []" by (simp add: sigmaStudy_def)
  have rect: "list_all (\<lambda>r. length r = 1) (rasterValues sigmaStudy)" by (simp add: sigmaStudy_def)
  have d: "[uniformDensity 0 (1 / 2)] \<noteq> [] \<Longrightarrow>
             length [uniformDensity 0 (1 / 2)] = 1 \<and> \<not> list_ex freeSymbols [uniformDensity 0 (1 / 2)]
             \<and> (\<forall>p \<in> set [uniformDensity 0 (1 / 2)]. \<forall>x. 0 \<le> pdf p x)
             \<and> sum_list (map (densityProduct [uniformDensity 0 (1 / 2)]) (rasterValues sigmaStudy)) \<noteq> 0"
    by (simp add: uniformDensity_def densityProduct_def sigmaStudy_def)
  have m1: "priorMass [] (rasterValues sigmaStudy) = [1 / 3, 1 / 3, 1 / 3]"
    by (simp add: priorMass_def sigmaStudy_def)
  have m2: "priorMass [uniformDensity 0 (1 / 2)] (rasterValues sigmaStudy) = [1 / 2, 1 / 2, 0]"
    by (simp add: priorMass_def sigmaStudy_def uniformDensity_def densityProduct_def)
  from setupPrior_probability_mass [OF ne rect, of "[]"]
       setupPrior_probability_mass [OF ne rect d]
  show ?thesis by (simp add: m1 m2)
qed

text \<open>
  The claim as stated fails for densities that vanish on the whole grid: for the raster
  \<^verbatim>\<open>[['sigma', 0, 1, 3]]\<close> and the uniform density on \<open>[2, 3]\<close> the renormalization
  divides zero by zero and every entry of the prior is NaN.
\<close>

theorem prior_sum_counterexample:
  "setupPrior [uniformDensity 2 3] sigmaStudy =
     Inr (None, sigmaStudy\<lparr>hyperParameterPrior := Some [NaN, NaN, NaN]\<rparr>)
   \<and> fsum [NaN, NaN, NaN] \<noteq> Fin 1"
  by (simp add: setupPrior_def sigmaStudy_def uniformDensity_def enumerate_eq_zip column_def
        fsum_def Let_def)


section \<open>The hyper-parameter distribution\<close>






lemma aggregate_results:
  assumes "aggregate env eo s = Inr s'"
  shows "\<exists>hp lj le. hyperParameterPrior s = Some hp
           \<and> logJoint (logEvidenceList s) hp = Inr lj
           \<and> logsumexp lj = Inr le
           \<and> logEvidence s' = le
           \<and> hyperParameterDistribution s' = Some (hyperDistribution lj (rasterConstant s))"
  using assms
  by (auto simp: aggregate_def Let_def split: if_splits sum.splits option.splits)




lemmas fit_stage_defs = fit_def setupRaster_def setupPrior_def prepareSweep_def
  buildRasterValues_def rasterAxes_def linspace_def meshgrid_ij_ravel_def
  buildRasterConstant_def spacingConstant_def runSweep_def sweep_def sweepStep_def
  setSelectedHyperParameters_def callStudyFit_def addWeighted_def sameShape_def
  aggregate_def normalizeSequence_def logJoint_def logsumexp_def hyperDistribution_def
  fmean_def fsum_def fprod_def fsub_def averageLocalEvidence_def meanValues_def column_def

lemmas example_defs = exampleEnv_def exampleStudy_def newRasterStudy_def exampleFit_def
  uniformDensity_def

lemma exp_plus_one_pos [simp]: "0 < exp (x::real) + 1" "exp (x::real) + 1 \<noteq> 0"
  using exp_gt_zero [of x] by linarith+

lemma length_hyperDistribution [simp]: "length (hyperDistribution lj rc) = length lj"
  by (simp add: hyperDistribution_def Let_def)

lemma sweptStudy_reached:
  "fit exampleEnv [(''sigma'', 0, 1, 2)] [] False True False False 1 exampleStudy =
     (case aggregate exampleEnv True sweptStudy of Inl e \<Rightarrow> Inl e | Inr s \<Rightarrow> Inr (Finished, s))"
  by (simp add: fit_def setupRaster_def setupPrior_def prepareSweep_def
  buildRasterValues_def rasterAxes_def linspace_def meshgrid_ij_ravel_def
  buildRasterConstant_def spacingConstant_def runSweep_def sweep_def sweepStep_def
  setSelectedHyperParameters_def callStudyFit_def example_defs sweptStudy_def enumerate_eq_zip upt_rec Let_def)





section \<open>The log-evidence of the average model\<close>

















section \<open>The averaged posterior sequence\<close>













lemma prepareSweep_sweepState:
  "hyperParameterPrior s = Some (map Fin p) \<Longrightarrow>
     sweepState (map fst (raster s)) (formattedData s) p []
       (replicate (length (formattedData s)) (replicate (prod_list (gridSize env)) 0))
       (prepareSweep env False s)"
  by (simp add: sweepState_def prepareSweep_def)


lemma preparedStudy_reached:
  "fit exampleEnv [(''sigma'', 0, 1, 2)] [] False False False False nJobs exampleStudy =
     (case runSweep exampleEnv False False nJobs preparedStudy of
        Inl e \<Rightarrow> Inl e
      | Inr s4 \<Rightarrow> (case aggregate exampleEnv False s4 of
                     Inl e \<Rightarrow> Inl e
                   | Inr s5 \<Rightarrow> Inr (Finished, s5)))"
proof -
  have 1: "setupRaster exampleEnv [(''sigma'', 0, 1, 2)] False False False False exampleStudy =
          Inr (None, exampleStudy\<lparr>raster := [(''sigma'', 0, 1, 2)], rasterValues := [[0], [1]],
                  rasterConstant := [Fin 1]\<rparr>)"
    by (simp add: setupRaster_def buildRasterValues_def rasterAxes_def linspace_def
        meshgrid_ij_ravel_def upt_rec buildRasterConstant_def spacingConstant_def)
  have 2: "prepareSweep exampleEnv False
             (exampleStudy\<lparr>raster := [(''sigma'', 0, 1, 2)], rasterValues := [[0], [1]],
                  rasterConstant := [Fin 1], formattedData := [[0]],
                  hyperParameterPrior := Some [Fin (1 / 2), Fin (1 / 2)]\<rparr>) = preparedStudy"
    by (simp add: prepareSweep_def preparedStudy_def exampleEnv_def exampleStudy_def
          newRasterStudy_def numeral_2_eq_2)
  have 3: "movingWindow exampleEnv (rawData exampleStudy) = [[0]]"
    by (simp add: exampleEnv_def exampleStudy_def newRasterStudy_def)
  have 4: "checkConsistency exampleEnv preparedStudy" by (simp add: exampleEnv_def)
  show ?thesis
    by (simp add: fit_def 1 setupPrior_def 3 Let_def numeral_2_eq_2 2 [simplified numeral_2_eq_2] 4)
qed



lemmas parallel_defs = parallelFit_def array_split_def mergeSubStudy_def


section \<open>The evidence lists of a split sweep\<close>

text \<open>
  \<^verbatim>\<open>np.array_split\<close> loses nothing: the sections, concatenated in order, are the array.
  Hence the log-evidence and local-evidence lists after the merge of the sub-studies are
  the lists of the single-process sweep, and with them the total log-evidence and the
  hyper-parameter distribution agree.
\<close>

lemma cumsum_length [simp]: "length (cumsum a ys) = length ys"
  by (induction ys arbitrary: a) simp_all

lemma cumsum_nth: "i < length ys \<Longrightarrow> cumsum a ys ! i = a + sum_list (take (Suc i) ys)"
proof (induction ys arbitrary: a i)
  case Nil
  then show ?case by simp
next
  case (Cons y ys)
  show ?case
  proof (cases i)
    case 0
    then show ?thesis by simp
  next
    case (Suc j)
    with Cons.prems have "j < length ys" by simp
    from Cons.IH [OF this, of "a + y"] Suc show ?thesis by simp
  qed
qed

lemma concat_sections:
  "concat (map (\<lambda>i. take (sizes ! i) (drop (sum_list (take i sizes)) xs)) [0..<length sizes])
     = take (sum_list sizes) xs"
proof (induction sizes rule: rev_induct)
  case Nil
  then show ?case by simp
next
  case (snoc z sizes)
  let ?F = "\<lambda>ss i. take (ss ! i) (drop (sum_list (take i ss)) xs)"
  have A: "map (?F (sizes @ [z])) [0..<length sizes] = map (?F sizes) [0..<length sizes]"
    by (rule map_cong) (simp_all add: nth_append)
  have B: "?F (sizes @ [z]) (length sizes) = take z (drop (sum_list sizes) xs)" by simp
  have "concat (map (?F (sizes @ [z])) [0..<length (sizes @ [z])])
        = concat (map (?F (sizes @ [z])) [0..<length sizes]) @ ?F (sizes @ [z]) (length sizes)"
    by simp
  also have "\<dots> = take (sum_list sizes) xs @ take z (drop (sum_list sizes) xs)"
    unfolding A B snoc.IH ..
  also have "\<dots> = take (sum_list (sizes @ [z])) xs" by (simp add: take_add)
  finally show ?case .
qed

lemma sections_by_sizes:
  assumes "length sizes = n"
  shows "map (\<lambda>i. take (cumsum 0 ([0] @ sizes) ! (i + 1) - cumsum 0 ([0] @ sizes) ! i)
                    (drop (cumsum 0 ([0] @ sizes) ! i) ary)) [0..<n]
         = map (\<lambda>i. take (sizes ! i) (drop (sum_list (take i sizes)) ary)) [0..<n]"
proof (rule map_cong [OF refl])
  fix i assume "i \<in> set [0..<n]"
  then have i: "i < n" by simp
  have dp: "cumsum 0 ([0] @ sizes) ! j = sum_list (take j sizes)" if "j \<le> n" for j
    using cumsum_nth [of j "0 # sizes" 0] that assms by simp
  have "take (Suc i) sizes = take i sizes @ [sizes ! i]"
    using i assms by (simp add: take_Suc_conv_app_nth)
  then have "cumsum 0 ([0] @ sizes) ! (i + 1) - cumsum 0 ([0] @ sizes) ! i = sizes ! i"
    using dp [of i] dp [of "i + 1"] i by simp
  with dp [of i] i
  show "take (cumsum 0 ([0] @ sizes) ! (i + 1) - cumsum 0 ([0] @ sizes) ! i)
             (drop (cumsum 0 ([0] @ sizes) ! i) ary)
        = take (sizes ! i) (drop (sum_list (take i sizes)) ary)"
    by simp
qed

lemma concat_array_split:
  assumes "0 < n"
  shows "concat (array_split ary n) = ary"
proof -
  define sizes where "sizes = replicate (length ary mod n) (length ary div n + 1)
                  @ replicate (n - length ary mod n) (length ary div n)"
  have len: "length sizes = n" using assms by (simp add: sizes_def)
  have "sum_list sizes = length ary mod n * (length ary div n + 1)
                          + (n - length ary mod n) * (length ary div n)"
    by (simp add: sizes_def sum_list_replicate)
  also have "\<dots> = n * (length ary div n) + length ary mod n"
  proof -
    have "length ary mod n < n" using assms by simp
    then show ?thesis by (simp add: algebra_simps diff_mult_distrib)
  qed
  also have "\<dots> = length ary" by simp
  finally have total: "sum_list sizes = length ary" .
  have "array_split ary n
        = map (\<lambda>i. take (cumsum 0 ([0] @ sizes) ! (i + 1) - cumsum 0 ([0] @ sizes) ! i)
                    (drop (cumsum 0 ([0] @ sizes) ! i) ary)) [0..<n]"
    unfolding array_split_def Let_def sizes_def by (simp only: append_assoc)
  also have "\<dots> = map (\<lambda>i. take (sizes ! i) (drop (sum_list (take i sizes)) ary)) [0..<length sizes]"
    unfolding len by (rule sections_by_sizes [OF len])
  finally have "concat (array_split ary n) = take (sum_list sizes) ary"
    by (simp only: concat_sections)
  with total show ?thesis by simp
qed

lemma length_array_split [simp]: "length (array_split ary n) = n"
  by (simp add: array_split_def Let_def)

lemma sweepStep_lists:
  assumes "sweepStep env fo eo i hv s = Inr s'"
  shows "logEvidenceList s' = logEvidenceList s @
           [pLogEvidence (studyFit env (selectedHyperParameters s) (Some hv) (formattedData s) fo eo)]
         \<and> localEvidenceList s' = localEvidenceList s @
           [pLocalEvidence (studyFit env (selectedHyperParameters s) (Some hv) (formattedData s) fo eo)]
         \<and> sameInputs s s'"
  using assms
  by (auto simp: sweepStep_def sameInputs_def Let_def setSelectedHyperParameters_def
        callStudyFit_def split: if_splits sum.splits option.splits)

lemma sweepLoop_lists:
  assumes "sweepLoop env fo eo pts s = Inr s'"
  shows "logEvidenceList s' = logEvidenceList s @
           map (\<lambda>(i, hv). pLogEvidence
                  (studyFit env (selectedHyperParameters s) (Some hv) (formattedData s) fo eo)) pts
         \<and> localEvidenceList s' = localEvidenceList s @
           map (\<lambda>(i, hv). pLocalEvidence
                  (studyFit env (selectedHyperParameters s) (Some hv) (formattedData s) fo eo)) pts
         \<and> sameInputs s s'"
  using assms
proof (induction pts arbitrary: s)
  case Nil
  then show ?case by (simp add: sameInputs_def)
next
  case (Cons pt pts)
  obtain i hv where pt: "pt = (i, hv)" by (cases pt)
  from Cons.prems pt obtain s1 where
    s1: "sweepStep env fo eo i hv s = Inr s1" and r: "sweepLoop env fo eo pts s1 = Inr s'"
    by (auto split: sum.splits)
  note a = sweepStep_lists [OF s1]
  note b = Cons.IH [OF r]
  from a have same: "selectedHyperParameters s1 = selectedHyperParameters s"
    "formattedData s1 = formattedData s" by (simp_all add: sameInputs_def)
  from a b show ?case unfolding same pt by (simp add: sameInputs_def)
qed

lemma map_enumerate_snd: "map (\<lambda>(i, x). f x) (enumerate n xs) = map f xs"
  by (induction xs arbitrary: n) simp_all

lemma sweep_lists:
  assumes "sweep env fo eo s = Inr s'"
  shows "logEvidenceList s' = logEvidenceList s @
           map (\<lambda>hv. pLogEvidence
                  (studyFit env (selectedHyperParameters s) (Some hv) (formattedData s) fo eo))
               (rasterValues s)
         \<and> localEvidenceList s' = localEvidenceList s @
           map (\<lambda>hv. pLocalEvidence
                  (studyFit env (selectedHyperParameters s) (Some hv) (formattedData s) fo eo))
               (rasterValues s)
         \<and> sameInputs s s'"
  using sweepLoop_lists [OF assms [unfolded sweep_def]] by (simp add: map_enumerate_snd)

lemma sequenceE_map:
  "sequenceE (map g xs) = Inr ys \<Longrightarrow> map Inr ys = map g xs"
proof (induction xs arbitrary: ys)
  case Nil
  then show ?case by simp
next
  case (Cons x xs)
  then show ?case by (auto split: sum.splits)
qed

lemma mergeSubStudy_lists:
  "mergeSubStudy eo self S = Inr s' \<Longrightarrow>
     logEvidenceList s' = logEvidenceList self @ logEvidenceList S
     \<and> localEvidenceList s' = localEvidenceList self @ localEvidenceList S
     \<and> sameInputs self s'"
  by (auto simp: mergeSubStudy_def sameInputs_def Let_def split: if_splits option.splits)

lemma mergeSubStudies_lists:
  "mergeSubStudies eo Ss self = Inr s' \<Longrightarrow>
     logEvidenceList s' = logEvidenceList self @ concat (map logEvidenceList Ss)
     \<and> localEvidenceList s' = localEvidenceList self @ concat (map localEvidenceList Ss)
     \<and> sameInputs self s'"
proof (induction Ss arbitrary: self)
  case Nil
  then show ?case by (simp add: sameInputs_def)
next
  case (Cons S Ss)
  from Cons.prems obtain s1 where
    s1: "mergeSubStudy eo self S = Inr s1" and r: "mergeSubStudies eo Ss s1 = Inr s'"
    by (auto split: sum.splits)
  from mergeSubStudy_lists [OF s1] Cons.IH [OF r] show ?case by (simp add: sameInputs_def)
qed

lemma parallelFit_lists:
  assumes "parallelFit env idx n fo eo s = Inr S" and "logEvidenceList s = []"
    and "localEvidenceList s = []"
  shows "logEvidenceList S =
           map (\<lambda>hv. pLogEvidence
                  (studyFit env (selectedHyperParameters s) (Some hv) (formattedData s) fo eo))
               (array_split (rasterValues s) n ! idx)
         \<and> localEvidenceList S =
           map (\<lambda>hv. pLocalEvidence
                  (studyFit env (selectedHyperParameters s) (Some hv) (formattedData s) fo eo))
               (array_split (rasterValues s) n ! idx)"
proof -
  from assms(1) obtain hp where
    sw: "sweep env fo eo (s\<lparr>rasterValues := array_split (rasterValues s) n ! idx,
                            hyperParameterPrior := Some (array_split hp n ! idx)\<rparr>) = Inr S"
    by (auto simp: parallelFit_def split: option.splits)
  from sweep_lists [OF sw] assms(2,3) show ?thesis by simp
qed

lemma runSweep_lists:
  assumes run: "runSweep env fo eo nJobs s = Inr s'"
    and empty: "logEvidenceList s = []" "localEvidenceList s = []"
  shows "logEvidenceList s' =
           map (\<lambda>hv. pLogEvidence
                  (studyFit env (selectedHyperParameters s) (Some hv) (formattedData s) fo eo))
               (rasterValues s)
         \<and> localEvidenceList s' =
           map (\<lambda>hv. pLocalEvidence
                  (studyFit env (selectedHyperParameters s) (Some hv) (formattedData s) fo eo))
               (rasterValues s)
         \<and> sameInputs s s'"
proof (cases "1 < nJobs \<and> pathosAvailable env")
  case False
  with run have "sweep env fo eo s = Inr s'"
    by (auto simp: runSweep_def Let_def split: if_splits)
  from sweep_lists [OF this] empty show ?thesis by simp
next
  case True
  let ?n = "nat nJobs"
  let ?fl = "\<lambda>hv. pLogEvidence
                  (studyFit env (selectedHyperParameters s) (Some hv) (formattedData s) fo eo)"
  let ?fc = "\<lambda>hv. pLocalEvidence
                  (studyFit env (selectedHyperParameters s) (Some hv) (formattedData s) fo eo)"
  from True have n0: "0 < ?n" by simp
  from run True obtain subs where
    seq: "sequenceE (map (\<lambda>idx. parallelFit env idx ?n fo eo s) [0..<?n]) = Inr subs"
    and mrg: "mergeSubStudies eo subs s = Inr s'"
    by (auto simp: runSweep_def Let_def split: sum.splits)
  from sequenceE_map [OF seq] have m: "map Inr subs = map (\<lambda>idx. parallelFit env idx ?n fo eo s) [0..<?n]" .
  then have len: "length subs = ?n" by (metis length_map length_upt minus_nat.diff_0)
  have each: "parallelFit env idx ?n fo eo s = Inr (subs ! idx)" if "idx < ?n" for idx
  proof -
    from m have "map Inr subs ! idx = map (\<lambda>idx. parallelFit env idx ?n fo eo s) [0..<?n] ! idx"
      by simp
    with that len show ?thesis by simp
  qed
  have ll: "map logEvidenceList subs = map (map ?fl) (array_split (rasterValues s) ?n)"
    by (rule nth_equalityI) (use len each parallelFit_lists [OF _ empty] in simp_all)
  have lc: "map localEvidenceList subs = map (map ?fc) (array_split (rasterValues s) ?n)"
    by (rule nth_equalityI) (use len each parallelFit_lists [OF _ empty] in simp_all)
  have cl: "concat (map (map f) (array_split (rasterValues s) ?n)) = map f (rasterValues s)" for f :: "real list \<Rightarrow> 'b"
    using concat_array_split [OF n0, of "rasterValues s"] by (metis map_concat)
  from mergeSubStudies_lists [OF mrg] empty show ?thesis
    unfolding ll lc cl by simp
qed

lemma parallel_evidence_agrees:
  assumes par: "runSweep env fo eo nJobs s = Inr sp" and "aggregate env eo sp = Inr sp'"
    and ser: "runSweep env fo eo 1 s = Inr ss" and "aggregate env eo ss = Inr ss'"
    and empty: "logEvidenceList s = []" "localEvidenceList s = []"
  shows "logEvidence sp' = logEvidence ss'
         \<and> hyperParameterDistribution sp' = hyperParameterDistribution ss'"
proof -
  from runSweep_lists [OF par empty] runSweep_lists [OF ser empty]
  have eq: "logEvidenceList sp = logEvidenceList ss" "hyperParameterPrior sp = hyperParameterPrior ss"
    "rasterConstant sp = rasterConstant ss"
    by (simp_all add: sameInputs_def)
  from aggregate_results [OF assms(2)] aggregate_results [OF assms(4)] eq
  show ?thesis by auto
qed


section \<open>Single-process and parallel fit\<close>

text \<open>
  C1.  The fit of the example study over the raster \<^verbatim>\<open>[['sigma', 0, 1, 2]]\<close> with a
  uniform prior, run with one worker and with two workers: both finish, the total
  log-evidence and the hyper-parameter distribution agree, and the averaged posterior
  sequences differ (\<open>[1/3, 2/3]\<close> against \<open>[1/2, 1/2]\<close>), because \<^verbatim>\<open>parallelFit\<close>
  weights every point relative to the first log-evidence of its own section
  (\<^verbatim>\<open>S.logEvidenceList[0]\<close>) and the merge adds the partial accumulators as they are.
\<close>

theorem parallel_fit_differs:
  "map_sum id fst (fit exampleEnv [(''sigma'', 0, 1, 2)] [] False False False False 1 exampleStudy)
     = Inr Finished
   \<and> averagePosteriorSequence
        (snd (projr (fit exampleEnv [(''sigma'', 0, 1, 2)] [] False False False False 1 exampleStudy)))
       = Some [[Fin (1 / 3), Fin (2 / 3)]]
   \<and> map_sum id fst (fit exampleEnv [(''sigma'', 0, 1, 2)] [] False False False False 2 exampleStudy)
       = Inr Finished
   \<and> averagePosteriorSequence
        (snd (projr (fit exampleEnv [(''sigma'', 0, 1, 2)] [] False False False False 2 exampleStudy)))
       = Some [[Fin (1 / 2), Fin (1 / 2)]]
   \<and> logEvidence
        (snd (projr (fit exampleEnv [(''sigma'', 0, 1, 2)] [] False False False False 2 exampleStudy)))
       = logEvidence
        (snd (projr (fit exampleEnv [(''sigma'', 0, 1, 2)] [] False False False False 1 exampleStudy)))
   \<and> hyperParameterDistribution
        (snd (projr (fit exampleEnv [(''sigma'', 0, 1, 2)] [] False False False False 2 exampleStudy)))
       = hyperParameterDistribution
        (snd (projr (fit exampleEnv [(''sigma'', 0, 1, 2)] [] False False False False 1 exampleStudy)))"
  by (simp add: fit_stage_defs parallel_defs example_defs enumerate_eq_zip upt_rec Let_def
        numeral_2_eq_2)


section \<open>Marginal distributions\<close>

lemma findParamIndex_absent:
  "n \<notin> snd ` set pts \<Longrightarrow> findParamIndex n pts acc = acc"
  by (induction pts arbitrary: acc) auto

lemma findParamIndex_append:
  "findParamIndex n (a @ b) acc = findParamIndex n b (findParamIndex n a acc)"
  by (induction a arbitrary: acc) auto

lemma findParamIndex_name:
  assumes k: "k < length names" and last: "names ! k \<notin> set (drop (Suc k) names)"
  shows "findParamIndex (names ! k) (enumerate 0 names) (- 1) = int k"
proof -
  have names: "names = take k names @ names ! k # drop (Suc k) names"
    using k by (simp add: id_take_nth_drop)
  have "enumerate 0 names
        = enumerate 0 (take k names) @ (k, names ! k) # enumerate (Suc k) (drop (Suc k) names)"
    using k by (subst names) (simp add: enumerate_append_eq min_def)
  moreover have "names ! k \<notin> snd ` set (enumerate (Suc k) (drop (Suc k) names))"
    using last by (metis list.set_map map_snd_enumerate)
  ultimately show ?thesis
    by (simp add: findParamIndex_append findParamIndex_absent)
qed

lemma unravel_index_bound:
  "f < prod_list shape \<Longrightarrow> k < length shape \<Longrightarrow> unravel_index f shape ! k < shape ! k"
proof (induction shape arbitrary: f k)
  case Nil
  then show ?case by simp
next
  case (Cons n ns)
  from Cons.prems(1) have f: "f < n * prod_list ns" by simp
  then have M0: "0 < prod_list ns" by (cases "prod_list ns") auto
  show ?case
  proof (cases k)
    case 0
    then show ?thesis using f M0 by (simp add: less_mult_imp_div_less)
  next
    case (Suc k')
    with Cons.prems(2) have "k' < length ns" by simp
    moreover have "f mod prod_list ns < prod_list ns" using M0 by simp
    ultimately show ?thesis using Cons.IH Suc by simp
  qed
qed

lemma sum_list_delta:
  "a < n \<Longrightarrow> sum_list (map (\<lambda>j. if a = j then x else 0) [0..<n]) = (x::real)"
  by (simp add: interv_sum_list_conv_sum_set_nat)

lemma sum_list_partition:
  "\<forall>f \<in> set fs. g f < n \<Longrightarrow>
     sum_list (map (\<lambda>j. sum_list (map h (filter (\<lambda>f. g f = j) fs))) [0..<n])
       = (sum_list (map h fs) :: real)"
proof (induction fs)
  case Nil
  then show ?case by simp
next
  case (Cons f fs)
  have "sum_list (map (\<lambda>j. sum_list (map h (filter (\<lambda>f. g f = j) (f # fs)))) [0..<n])
        = sum_list (map (\<lambda>j. (if g f = j then h f else 0)
                               + sum_list (map h (filter (\<lambda>f. g f = j) fs))) [0..<n])"
    by (intro arg_cong [where f = sum_list] map_cong) auto
  also have "\<dots> = sum_list (map (\<lambda>j. if g f = j then h f else 0) [0..<n])
                   + sum_list (map (\<lambda>j. sum_list (map h (filter (\<lambda>f. g f = j) fs))) [0..<n])"
    by (rule sum_list_addf)
  also have "\<dots> = h f + sum_list (map h fs)"
    using Cons by (simp add: sum_list_delta)
  finally show ?case by simp
qed

lemma prod_list_without:
  assumes "k < length c"
  shows "prod_list (map (\<lambda>a. c ! a) (filter (\<lambda>a. a \<noteq> k) [0..<length c])) * c ! k
         = (prod_list c :: real)"
proof -
  have d: "distinct (filter (\<lambda>a. a \<noteq> k) [0..<length c])" by simp
  have "prod_list (map (\<lambda>a. c ! a) (filter (\<lambda>a. a \<noteq> k) [0..<length c]))
        = prod (\<lambda>a. c ! a) (set (filter (\<lambda>a. a \<noteq> k) [0..<length c]))"
    using prod.distinct_set_conv_list [OF d, of "\<lambda>a. c ! a"] by (simp only:)
  also have "set (filter (\<lambda>a. a \<noteq> k) [0..<length c]) = {0..<length c} - {k}" by auto
  finally have 1: "prod_list (map (\<lambda>a. c ! a) (filter (\<lambda>a. a \<noteq> k) [0..<length c]))
        = prod (\<lambda>a. c ! a) ({0..<length c} - {k})" .
  have "prod_list c = prod_list (map (\<lambda>a. c ! a) [0..<length c])" by (simp add: map_nth)
  also have "\<dots> = prod (\<lambda>a. c ! a) {0..<length c}"
    using prod.distinct_set_conv_list [of "[0..<length c]" "\<lambda>a. c ! a"] by simp
  also have "\<dots> = c ! k * prod (\<lambda>a. c ! a) ({0..<length c} - {k})"
    using assms by (intro prod.remove) simp_all
  finally show ?thesis using 1 by simp
qed

lemma marginalDensity_integral:
  assumes k: "k < length shape" and len: "length c = length shape"
    and size: "prod_list shape = length d"
  shows "sum_list (marginalDensity shape k d c) * c ! k = sum_list d * prod_list c"
proof -
  let ?F = "prod_list (map (\<lambda>a. c ! a) (filter (\<lambda>a. a \<noteq> k) [0..<length c]))"
  have b: "\<forall>f \<in> set [0..<length d]. unravel_index f shape ! k < shape ! k"
    using unravel_index_bound [OF _ k] size by simp
  have "sum_list (marginalDensity shape k d c)
        = sum_list (map (\<lambda>j. sum_list (map (\<lambda>f. d ! f)
                    (filter (\<lambda>f. unravel_index f shape ! k = j) [0..<length d]))) [0..<shape ! k]) * ?F"
    unfolding marginalDensity_def by (simp add: sum_list_mult_const)
  also have "\<dots> = sum_list (map (\<lambda>f. d ! f) [0..<length d]) * ?F"
    using sum_list_partition [OF b] by simp
  also have "\<dots> = sum_list d * ?F" by (simp add: map_nth)
  finally have "sum_list (marginalDensity shape k d c) * c ! k = sum_list d * (?F * c ! k)" by simp
  also have "?F * c ! k = prod_list c" using k len by (intro prod_list_without) simp
  finally show ?thesis .
qed

lemma fsum_nth_Fin:
  "\<forall>f \<in> set fs. f < length d \<Longrightarrow>
     fsum (map ((!) (map Fin d)) fs) = Fin (sum_list (map ((!) d) fs))"
  by (induction fs) (simp_all add: fsum_def)

lemma sumOverOtherAxes_Fin:
  "sumOverOtherAxes shape k (map Fin d)
     = map Fin (map (\<lambda>j. sum_list (map (\<lambda>f. d ! f)
                  (filter (\<lambda>f. unravel_index f shape ! k = j) [0..<length d]))) [0..<shape ! k])"
  by (simp add: sumOverOtherAxes_def o_def fsum_nth_Fin)

lemma fprod_nth_Fin:
  "\<forall>a \<in> set axes. a < length c \<Longrightarrow>
     fprod (map (\<lambda>axis. map Fin c ! axis) axes) = Fin (prod_list (map (\<lambda>a. c ! a) axes))"
  by (induction axes) (simp_all add: fprod_def)

lemma resolve_param:
  assumes k: "k < length (raster s)"
    and param: "param = ByIndex (int k)
                \<or> (param = ByName (fst (raster s ! k))
                    \<and> fst (raster s ! k) \<notin> set (drop (Suc k) (map fst (raster s))))"
  shows "(case param of
            ByIndex i \<Rightarrow> Some i
          | ByName n \<Rightarrow>
              (if findParamIndex n (enumerate 0 (map fst (raster s))) (- 1) = - 1 then None
               else Some (findParamIndex n (enumerate 0 (map fst (raster s))) (- 1)))
          | OtherParam \<Rightarrow> None) = Some (int k)"
proof -
  from param show ?thesis
  proof
    assume "param = ByIndex (int k)"
    then show ?thesis by simp
  next
    assume p: "param = ByName (fst (raster s ! k))
                 \<and> fst (raster s ! k) \<notin> set (drop (Suc k) (map fst (raster s)))"
    with k have "findParamIndex (map fst (raster s) ! k) (enumerate 0 (map fst (raster s))) (- 1) = int k"
      by (intro findParamIndex_name) simp_all
    with p k show ?thesis by simp
  qed
qed

text \<open>
  C8 (amended).  For a study whose hyper-parameter distribution is a vector of finite
  values with one entry per point of the regular grid of its raster, with finite
  spacing constants, and which integrates to 1 over the grid: for every dimension given
  by its index, or by its name (the last dimension of that name), the marginalization returns
  the axis values of the dimension and the density summed over all other dimensions
  times the product of their spacing constants; the returned marginal, summed over its
  axis and multiplied by its own spacing constant, equals 1.
\<close>

theorem plotHyperParameterDistribution_marginal:
  assumes hpd: "hyperParameterDistribution s = Some (map Fin d)"
    and rc: "rasterConstant s = map Fin c" and lc: "length c = length (raster s)"
    and steps: "\<forall>(name, lower, upper, steps) \<in> set (raster s). 0 \<le> steps"
    and size: "prod_list (map (\<lambda>(name, lower, upper, steps). nat steps) (raster s)) = length d"
    and k: "k < length (raster s)"
    and param: "param = ByIndex (int k)
                \<or> (param = ByName (fst (raster s ! k))
                    \<and> fst (raster s ! k) \<notin> set (drop (Suc k) (map fst (raster s))))"
    and fitted: "sum_list d * prod_list c = 1"
  shows "plotHyperParameterDistribution param s =
           Inr (Some ((case raster s ! k of (name, lower, upper, steps) \<Rightarrow>
                         evenlySpaced lower upper (nat steps)),
                      map Fin (marginalDensity
                                 (map (\<lambda>(name, lower, upper, steps). nat steps) (raster s)) k d c)))
         \<and> sum_list (marginalDensity
                       (map (\<lambda>(name, lower, upper, steps). nat steps) (raster s)) k d c) * c ! k = 1"
proof
  let ?shape = "map (\<lambda>(name, lower, upper, steps). nat steps) (raster s)"
  let ?rasterSteps = "map (\<lambda>(name, lower, upper, steps). steps) (raster s)"
  let ?axes = "filter (\<lambda>a. a \<noteq> k) [0..<length (map fst (raster s))]"
  have shape: "map nat ?rasterSteps = ?shape" by (simp add: o_def split_def)
  have nonneg: "list_all (\<lambda>n. 0 \<le> n) ?rasterSteps"
    using steps by (auto simp: list_all_iff)
  have sz: "prod_list (map nat ?rasterSteps) = length (map Fin d)"
    unfolding shape using size by simp
  have inrange: "list_all (\<lambda>a. a < length (rasterConstant s)) (?axes @ [nat (int k)])"
    using k lc rc by (auto simp: list_all_iff)
  have axes_c: "\<forall>a \<in> set ?axes. a < length c" using lc by auto
  have factor: "fprod (map (\<lambda>axis. rasterConstant s ! axis) ?axes)
                = Fin (prod_list (map (\<lambda>a. c ! a) (filter (\<lambda>a. a \<noteq> k) [0..<length c])))"
    unfolding rc using fprod_nth_Fin [OF axes_c] lc by simp
  obtain name lower upper st where e: "raster s ! k = (name, lower, upper, st)"
    by (cases "raster s ! k")
  with steps k have "0 \<le> st" by (metis (no_types, lifting) case_prodD nth_mem)
  then have lin: "linspace lower upper st = Inr (evenlySpaced lower upper (nat st))"
    by (rule linspace_evenlySpaced)
  have sk: "?shape ! k = nat st" using k e by simp
  have marg: "map (\<lambda>m. fmul m (Fin F)) (sumOverOtherAxes ?shape k (map Fin d))
          = map Fin (map (\<lambda>j. sum_list (map (\<lambda>f. d ! f)
                  (filter (\<lambda>f. unravel_index f ?shape ! k = j) [0..<length d])) * F) [0..<?shape ! k])"
    for F
    unfolding sumOverOtherAxes_Fin by (simp add: o_def)
  have bounds: "\<not> (int k < 0 \<or> int (length (map fst (raster s))) \<le> int k)" using k by simp
  show "plotHyperParameterDistribution param s =
           Inr (Some ((case raster s ! k of (name, lower, upper, steps) \<Rightarrow>
                         evenlySpaced lower upper (nat steps)),
                      map Fin (marginalDensity ?shape k d c)))"
    unfolding plotHyperParameterDistribution_def Let_def resolve_param [OF k param]
    using bounds hpd nonneg sz inrange
    by (simp only: option.case if_False if_True shape HOL.simp_thms factor e prod.case lin
          sum.case marg marginalDensity_def nat_int)
  show "sum_list (marginalDensity ?shape k d c) * c ! k = 1"
    using marginalDensity_integral [of k ?shape c d] k lc size fitted by simp
qed

lemma upt_numerals:
  "[0..<2] = [0, 1]" "[0..<3] = [0, 1, 2]" "[0..<6] = [0, 1, 2, 3, 4, 5]"
  by (simp_all add: upt_rec)

theorem plotHyperParameterDistribution_marginal_witness:
  "plotHyperParameterDistribution (ByName ''p'') fittedStudy =
     Inr (Some ([0, 1, 2], [Fin (1 / 6), Fin (1 / 3), Fin (1 / 2)]))
   \<and> plotHyperParameterDistribution (ByIndex 0) fittedStudy =
       Inr (Some ([0, 1], [Fin (1 / 2), Fin (1 / 2)]))
   \<and> sum_list [1 / 6, 1 / 3, 1 / 2 :: real] * 1 = 1"
proof -
  let ?d = "[1 / 12, 1 / 6, 1 / 4, 1 / 12, 1 / 6, 1 / 4 :: real]"
  let ?c = "[1, 1 :: real]"
  have hpd: "hyperParameterDistribution fittedStudy = Some (map Fin ?d)"
    by (simp add: fittedStudy_def)
  have rc: "rasterConstant fittedStudy = map Fin ?c" by (simp add: fittedStudy_def)
  have lc: "length ?c = length (raster fittedStudy)" by (simp add: fittedStudy_def)
  have steps: "\<forall>(name, lower, upper, steps) \<in> set (raster fittedStudy). 0 \<le> steps"
    by (simp add: fittedStudy_def)
  have size: "prod_list (map (\<lambda>(name, lower, upper, steps). nat steps) (raster fittedStudy))
              = length ?d"
    by (simp add: fittedStudy_def)
  have k1: "Suc 0 < length (raster fittedStudy)" and k0: "0 < length (raster fittedStudy)"
    by (simp_all add: fittedStudy_def)
  have p1: "ByName ''p'' = ByIndex (int (Suc 0))
            \<or> (ByName ''p'' = ByName (fst (raster fittedStudy ! Suc 0))
                \<and> fst (raster fittedStudy ! Suc 0)
                    \<notin> set (drop (Suc (Suc 0)) (map fst (raster fittedStudy))))"
    by (simp add: fittedStudy_def)
  have p0: "ByIndex 0 = ByIndex (int 0)
            \<or> (ByIndex 0 = ByName (fst (raster fittedStudy ! 0))
                \<and> fst (raster fittedStudy ! 0)
                    \<notin> set (drop (Suc 0) (map fst (raster fittedStudy))))"
    by simp
  have fitted: "sum_list ?d * prod_list ?c = 1" by simp
  have m1: "marginalDensity [2, 3] (Suc 0) ?d ?c = [1 / 6, 1 / 3, 1 / 2]"
    by (simp add: marginalDensity_def upt_numerals)
  have m0: "marginalDensity [2, 3] 0 ?d ?c = [1 / 2, 1 / 2]"
    by (simp add: marginalDensity_def upt_numerals)
  have x1: "evenlySpaced 0 2 3 = [0, 1, 2]" and x0: "evenlySpaced 0 1 2 = [0, 1]"
    by (simp_all add: evenlySpaced_def upt_rec)
  from plotHyperParameterDistribution_marginal [OF hpd rc lc steps size k1 p1 fitted]
       plotHyperParameterDistribution_marginal [OF hpd rc lc steps size k0 p0 fitted]
  show ?thesis
    by (simp add: fittedStudy_def m1 m0 x1 x0)
qed

text \<open>
  The claim as stated fails for a density fitted over a custom raster: the method
  reshapes the density to the step counts of the \<^verbatim>\<open>raster\<close> attribute, which for a
  custom raster is a dummy that only names the hyper-parameters, and \<^verbatim>\<open>reshape\<close> raises.
\<close>

theorem marginal_counterexample:
  "map_sum id fst (fit exampleEnv [] [] False True True False 1 customStudy) = Inr Finished
   \<and> plotHyperParameterDistribution (ByIndex 0)
        (snd (projr (fit exampleEnv [] [] False True True False 1 customStudy)))
       = Inl ValueError"
  by (simp add: fit_stage_defs example_defs customStudy_def enumerate_eq_zip upt_rec Let_def
        plotHyperParameterDistribution_def)


end
